theory Spec2Isabelle
  imports Complex_Main "HOL-Library.Multiset"
begin

section \<open>Numbers\<close>

text \<open>
  The engine computes with JavaScript numbers, the doubles of IEEE 754. A finite double
  is modelled as the real number it denotes, and \<open>binary64 x\<close> is the double nearest to
  the real \<open>x\<close>, a tie going to the double whose last bit is even: \<open>x\<close> is scaled by the
  place of its last bit (\<open>lastPlace\<close>: 52 places below its leading bit, and never below
  the place \<open>-1074\<close> of the subnormal doubles) and rounded to a whole number. The
  overflow to \<open>Infinity\<close> above the largest double (about \<open>1.8e308\<close>) is not modelled. The
  two zeros are not distinguished (a zero is \<open>+0\<close>).

  The program's \<open>x + y\<close> is \<open>binary64 (x + y)\<close>, and so for \<open>-\<close>, \<open>*\<close> and \<open>/\<close>. The model
  rounds in this way the running values that the engine writes back and tests again,
  \<open>existingBudget.assigned += amount\<close>, \<open>remainingMoney -= toAssign\<close> and the amount that
  \<open>autoAssignMoney\<close> gives to a goal, and every operation of \<open>calculatePayoffTime\<close>, whose
  branches turn on the last bit of a quotient. The sums, products and quotients of the
  other operations are exact: their values are the program's up to the rounding of each
  step. \<open>Math.abs\<close>, \<open>Math.max\<close>, \<open>Math.min\<close> and \<open>Math.ceil\<close> are exact on doubles.

  A division by a value the source has not tested and every \<open>Math.log\<close> can leave the
  finite numbers and gives a \<open>jsnum\<close>, which adds \<open>Infinity\<close>, \<open>-Infinity\<close> and \<open>NaN\<close>.
\<close>

definition roundHalfEven :: "real \<Rightarrow> int" where
  "roundHalfEven y =
     (let f = \<lfloor>y\<rfloor>; d = y - of_int f
      in if d < 1 / 2 then f else if 1 / 2 < d then f + 1 else if even f then f else f + 1)"

definition lastPlace :: "real \<Rightarrow> int" where
  "lastPlace x = max \<lfloor>log 2 \<bar>x\<bar>\<rfloor> (- 1022) - 52"

definition binary64 :: "real \<Rightarrow> real" where
  "binary64 x =
     (if x = 0 then 0
      else of_int (roundHalfEven (x / 2 powi lastPlace x)) * 2 powi lastPlace x)"

datatype jsnum = Fin real | PosInf | NegInf | NaN

fun isFinite :: "jsnum \<Rightarrow> bool" where
  "isFinite (Fin x) = True"
| "isFinite PosInf = False"
| "isFinite NegInf = False"
| "isFinite NaN = False"

text \<open>The rounding of a result that is a number.\<close>

fun jfl :: "jsnum \<Rightarrow> jsnum" where
  "jfl (Fin x) = Fin (binary64 x)"
| "jfl PosInf = PosInf"
| "jfl NegInf = NegInf"
| "jfl NaN = NaN"

fun jneg :: "jsnum \<Rightarrow> jsnum" where
  "jneg (Fin x) = Fin (- x)"
| "jneg PosInf = NegInf"
| "jneg NegInf = PosInf"
| "jneg NaN = NaN"

fun jadd :: "jsnum \<Rightarrow> jsnum \<Rightarrow> jsnum" where
  "jadd (Fin a) (Fin b) = Fin (a + b)"
| "jadd NaN y = NaN"
| "jadd x NaN = NaN"
| "jadd PosInf NegInf = NaN"
| "jadd NegInf PosInf = NaN"
| "jadd PosInf y = PosInf"
| "jadd x PosInf = PosInf"
| "jadd NegInf y = NegInf"
| "jadd x NegInf = NegInf"

definition jsub :: "jsnum \<Rightarrow> jsnum \<Rightarrow> jsnum" where
  "jsub x y = jadd x (jneg y)"

text \<open>The sign of an infinite product or quotient: \<open>True\<close> for a result below zero.\<close>

definition signedInf :: "bool \<Rightarrow> jsnum" where
  "signedInf negative = (if negative then NegInf else PosInf)"

fun jmul :: "jsnum \<Rightarrow> jsnum \<Rightarrow> jsnum" where
  "jmul (Fin a) (Fin b) = Fin (a * b)"
| "jmul NaN y = NaN"
| "jmul x NaN = NaN"
| "jmul (Fin a) PosInf = (if a = 0 then NaN else signedInf (a < 0))"
| "jmul (Fin a) NegInf = (if a = 0 then NaN else signedInf (0 < a))"
| "jmul PosInf (Fin b) = (if b = 0 then NaN else signedInf (b < 0))"
| "jmul NegInf (Fin b) = (if b = 0 then NaN else signedInf (0 < b))"
| "jmul PosInf PosInf = PosInf"
| "jmul PosInf NegInf = NegInf"
| "jmul NegInf PosInf = NegInf"
| "jmul NegInf NegInf = PosInf"

fun jdiv :: "jsnum \<Rightarrow> jsnum \<Rightarrow> jsnum" where
  "jdiv (Fin a) (Fin b) =
     (if b \<noteq> 0 then Fin (a / b) else if a = 0 then NaN else signedInf (a < 0))"
| "jdiv NaN y = NaN"
| "jdiv x NaN = NaN"
| "jdiv (Fin a) PosInf = Fin 0"
| "jdiv (Fin a) NegInf = Fin 0"
| "jdiv PosInf (Fin b) = signedInf (b < 0)"
| "jdiv NegInf (Fin b) = signedInf (0 \<le> b)"
| "jdiv PosInf PosInf = NaN"
| "jdiv PosInf NegInf = NaN"
| "jdiv NegInf PosInf = NaN"
| "jdiv NegInf NegInf = NaN"

text \<open>
  \<open>Math.log\<close>: \<open>-Infinity\<close> at zero and \<open>NaN\<close> below it. Above zero its value is an
  approximation of the natural logarithm that the language leaves to the implementation;
  the model takes the implementation's function on the positive doubles as the
  parameter \<open>mathLog\<close>.
\<close>

fun jlog :: "(real \<Rightarrow> real) \<Rightarrow> jsnum \<Rightarrow> jsnum" where
  "jlog mathLog (Fin x) = (if 0 < x then Fin (mathLog x) else if x = 0 then NegInf else NaN)"
| "jlog mathLog PosInf = PosInf"
| "jlog mathLog NegInf = NaN"
| "jlog mathLog NaN = NaN"

fun jceil :: "jsnum \<Rightarrow> jsnum" where
  "jceil (Fin x) = Fin (of_int \<lceil>x\<rceil>)"
| "jceil PosInf = PosInf"
| "jceil NegInf = NegInf"
| "jceil NaN = NaN"

text \<open>\<open>Math.max\<close>: \<open>NaN\<close> as soon as one argument is \<open>NaN\<close>.\<close>

fun jmax :: "jsnum \<Rightarrow> jsnum \<Rightarrow> jsnum" where
  "jmax (Fin a) (Fin b) = Fin (max a b)"
| "jmax NaN y = NaN"
| "jmax x NaN = NaN"
| "jmax PosInf y = PosInf"
| "jmax x PosInf = PosInf"
| "jmax NegInf y = y"
| "jmax x NegInf = x"

text \<open>The comparison \<open>x <= 0\<close>: false for \<open>NaN\<close>.\<close>

fun jle0 :: "jsnum \<Rightarrow> bool" where
  "jle0 (Fin x) = (x \<le> 0)"
| "jle0 NegInf = True"
| "jle0 PosInf = False"
| "jle0 NaN = False"

section \<open>Strings\<close>

fun startsWith :: "string \<Rightarrow> string \<Rightarrow> bool" where
  "startsWith s [] = True"
| "startsWith [] (c # cs) = False"
| "startsWith (x # xs) (c # cs) = (x = c \<and> startsWith xs cs)"

fun split :: "char \<Rightarrow> string \<Rightarrow> string list" where
  "split sep [] = [[]]"
| "split sep (x # xs) =
     (if x = sep then [] # split sep xs
      else (case split sep xs of [] \<Rightarrow> [[x]] | p # ps \<Rightarrow> (x # p) # ps))"

definition digitValue :: "char \<Rightarrow> nat option" where
  "digitValue c = map_of (zip ''0123456789'' [0, 1, 2, 3, 4, 5, 6, 7, 8, 9]) c"

text \<open>
  \<open>Number(s)\<close> on a string of decimal digits (the empty string is \<open>0\<close>). Every other
  string is taken as \<open>NaN\<close> (\<open>None\<close>): the signed, fractional, exponent, radix-prefixed
  and whitespace-padded forms that \<open>Number\<close> also reads do not occur in a \<open>YYYY-MM\<close>
  month and are not modelled.
\<close>

fun digitsValue :: "nat \<Rightarrow> string \<Rightarrow> nat option" where
  "digitsValue acc [] = Some acc"
| "digitsValue acc (c # cs) =
     (case digitValue c of None \<Rightarrow> None | Some v \<Rightarrow> digitsValue (10 * acc + v) cs)"

definition Number :: "string \<Rightarrow> nat option" where
  "Number s = digitsValue 0 s"

definition digitChar :: "nat \<Rightarrow> char" where
  "digitChar n = ''0123456789'' ! n"

text \<open>The decimal digits of a natural number, as \<open>String(n)\<close> prints them.\<close>

function String :: "nat \<Rightarrow> string" where
  "String n = (if n < 10 then [digitChar n] else String (n div 10) @ [digitChar (n mod 10)])"
  by pat_completeness auto
termination
  by (relation "measure (\<lambda>n. n)") auto

declare String.simps [simp del]

definition padStart2 :: "string \<Rightarrow> string" where
  "padStart2 s = (if length s < 2 then replicate (2 - length s) (CHR ''0'') @ s else s)"

section \<open>The ledger\<close>

text \<open>
  The interfaces of \<open>types/index.ts\<close>. Isabelle's record fields are global names, so each
  field carries a prefix naming its interface (\<open>bud_assigned\<close> is \<open>Budget.assigned\<close>). An
  optional field is an \<open>option\<close>. Fields the engine never reads (display strings,
  reconciliation marks, settings and the like) are left out.
\<close>

datatype TransactionType = income | expense | transfer

datatype AccountType = checking' | savings | credit_card | loan | investment | cash

datatype GoalType = target_balance | monthly_funding | target_date

record Account =
  acc_id :: string
  acc_name :: string
  acc_type :: AccountType
  acc_balance :: real
  acc_interestRate :: "real option"

record Category =
  cat_id :: string
  cat_isGoal :: "bool option"

record Transaction =
  txn_type :: TransactionType
  txn_categoryId :: string
  txn_amount :: real
  txn_date :: string

record Budget =
  bud_id :: string
  bud_categoryId :: string
  bud_month :: string
  bud_assigned :: real
  bud_activity :: real
  bud_available :: real

record Goal =
  goal_id :: string
  goal_categoryId :: string
  goal_type :: GoalType
  goal_targetAmount :: real
  goal_targetDate :: "string option"
  goal_monthlyFunding :: "real option"
  goal_currentAmount :: real
  goal_isActive :: bool

record BudgetData =
  accounts :: "Account list"
  categories :: "Category list"
  transactions :: "Transaction list"
  budgets :: "Budget list"
  goals :: "Goal list"

section \<open>Envelope budgeting\<close>

text \<open>
  \<open>getPreviousMonth\<close>: the month is split at \<open>-\<close> and its first two parts are read as
  numbers; \<open>new Date(year, monthNum - 1)\<close> counts a year from 0 to 99 from 1900, and
  lets a month outside 1..12 carry into the year; \<open>setMonth(getMonth() - 1)\<close> steps one
  month back. A part that is not a number, a missing second part, or a date beyond the
  last month a \<open>Date\<close> can hold (September 275760) gives an invalid date, printed as
  \<open>NaN-NaN\<close>. Months are counted from year 0: month \<open>k\<close> is month \<open>k mod 12\<close> of year
  \<open>k div 12\<close>.
\<close>

definition getPreviousMonth :: "string \<Rightarrow> string" where
  "getPreviousMonth month =
     (case map Number (split (CHR ''-'') month) of
        Some year # Some monthNum # rest \<Rightarrow>
          (let fullYear = (if year \<le> 99 then 1900 + year else year);
               date = int fullYear * 12 + (int monthNum - 1)
           in if 275760 * 12 + 8 < date then ''NaN-NaN''
              else (let date' = date - 1
                    in String (nat (date' div 12)) @ ''-'' @
                       padStart2 (String (nat (date' mod 12 + 1)))))
      | _ \<Rightarrow> ''NaN-NaN'')"

definition getMonthlyIncome :: "BudgetData \<Rightarrow> string \<Rightarrow> real" where
  "getMonthlyIncome d month =
     foldl (\<lambda>sum t. sum + txn_amount t) 0
       (filter (\<lambda>t. startsWith (txn_date t) month \<and> txn_type t = income) (transactions d))"

definition getCategoryActivity :: "BudgetData \<Rightarrow> string \<Rightarrow> string \<Rightarrow> real" where
  "getCategoryActivity d categoryId month =
     foldl (\<lambda>sum t. sum + (if txn_type t = expense then - txn_amount t else txn_amount t)) 0
       (filter (\<lambda>t. startsWith (txn_date t) month \<and> txn_categoryId t = categoryId)
          (transactions d))"

text \<open>
  \<open>calculateCategoryAvailable\<close>: \<open>budget?.assigned || 0\<close> and
  \<open>previousBudget?.available || 0\<close> are the field of the first matching record, and \<open>0\<close>
  when there is none (a field that is \<open>0\<close> gives \<open>0\<close> either way).
\<close>

definition calculateCategoryAvailable :: "BudgetData \<Rightarrow> string \<Rightarrow> string \<Rightarrow> real" where
  "calculateCategoryAvailable d categoryId month =
     (let budget = find (\<lambda>b. bud_categoryId b = categoryId \<and> bud_month b = month) (budgets d);
          previousMonth = getPreviousMonth month;
          previousBudget =
            find (\<lambda>b. bud_categoryId b = categoryId \<and> bud_month b = previousMonth) (budgets d);
          assigned = (case budget of None \<Rightarrow> 0 | Some b \<Rightarrow> bud_assigned b);
          activity = getCategoryActivity d categoryId month;
          previousAvailable = (case previousBudget of None \<Rightarrow> 0 | Some b \<Rightarrow> bud_available b)
      in previousAvailable + assigned + activity)"

definition calculateOverspending :: "BudgetData \<Rightarrow> string \<Rightarrow> real" where
  "calculateOverspending d month =
     foldl (\<lambda>sum budget.
              (let available = calculateCategoryAvailable d (bud_categoryId budget) month
               in sum + max 0 (- available)))
       0 (filter (\<lambda>b. bud_month b = month) (budgets d))"

definition calculateAvailableToBudget :: "BudgetData \<Rightarrow> string \<Rightarrow> real" where
  "calculateAvailableToBudget d month =
     (let monthlyIncome = getMonthlyIncome d month;
          previousMonth = getPreviousMonth month;
          previousMonthBudgets = filter (\<lambda>b. bud_month b = previousMonth) (budgets d);
          previousMonthAssigned = foldl (\<lambda>sum b. sum + bud_assigned b) 0 previousMonthBudgets;
          previousMonthIncome = getMonthlyIncome d previousMonth;
          previousUnassigned = max 0 (previousMonthIncome - previousMonthAssigned);
          previousOverspending = calculateOverspending d previousMonth
      in monthlyIncome + previousUnassigned - previousOverspending)"

record BudgetSummary =
  availableToBudget :: real
  totalAssigned :: real
  toBeBudgeted :: real
  isFullyAssigned :: bool
  isOverAssigned :: bool

definition getMonthlyBudgetSummary :: "BudgetData \<Rightarrow> string \<Rightarrow> BudgetSummary" where
  "getMonthlyBudgetSummary d month =
     (let monthBudgets = filter (\<lambda>b. bud_month b = month) (budgets d);
          total = foldl (\<lambda>sum b. sum + bud_assigned b) 0 monthBudgets;
          available = calculateAvailableToBudget d month;
          tbb = available - total
      in \<lparr>availableToBudget = available, totalAssigned = total, toBeBudgeted = tbb,
          isFullyAssigned = (tbb = 0), isOverAssigned = (tbb < 0)\<rparr>)"

text \<open>
  \<open>assignMoney\<close> mutates the record that \<open>find\<close> returned, which is an element of the
  ledger's array: the model updates the array at the position of the first match. The
  returned \<open>Budget\<close> is that same object, so the model returns its position; the record
  is read from the ledger at that position. \<open>existingBudget.assigned += amount\<close> is the
  addition of doubles. A new record's \<open>available\<close> is computed before the record is
  pushed. The first argument is the reading of \<open>Date.now()\<close>.
\<close>

fun findIndex :: "('a \<Rightarrow> bool) \<Rightarrow> 'a list \<Rightarrow> nat option" where
  "findIndex P [] = None"
| "findIndex P (x # xs) = (if P x then Some 0 else map_option Suc (findIndex P xs))"

definition assignMoney :: "nat \<Rightarrow> BudgetData \<Rightarrow> string \<Rightarrow> string \<Rightarrow> real \<Rightarrow> BudgetData \<times> nat" where
  "assignMoney now d categoryId month amount =
     (case findIndex (\<lambda>b. bud_categoryId b = categoryId \<and> bud_month b = month) (budgets d) of
        Some i \<Rightarrow>
          (let existingBudget = budgets d ! i;
               d1 = d\<lparr>budgets := (budgets d)
                      [i := existingBudget
                         \<lparr>bud_assigned := binary64 (bud_assigned existingBudget + amount)\<rparr>]\<rparr>;
               d2 = d1\<lparr>budgets := (budgets d1)
                      [i := (budgets d1 ! i)
                         \<lparr>bud_available := calculateCategoryAvailable d1 categoryId month\<rparr>]\<rparr>
           in (d2, i))
      | None \<Rightarrow>
          (let newBudget =
                 \<lparr>bud_id = ''budget-'' @ String now @ ''-'' @ categoryId,
                  bud_categoryId = categoryId,
                  bud_month = month,
                  bud_assigned = amount,
                  bud_activity = getCategoryActivity d categoryId month,
                  bud_available = 0\<rparr>;
               newBudget' = newBudget\<lparr>bud_available := calculateCategoryAvailable d categoryId month\<rparr>
           in (d\<lparr>budgets := budgets d @ [newBudget']\<rparr>, length (budgets d))))"

section \<open>The host\<close>

text \<open>
  What the engine reads from outside its arguments and its ledger: the clock and the
  \<open>Date\<close> library. \<open>dateNow k\<close> is the reading of \<open>Date.now()\<close> at the \<open>k\<close>-th call of
  \<open>assignMoney\<close> inside one operation; \<open>nowFullYear\<close> and \<open>nowMonth\<close> are
  \<open>getFullYear()\<close> and \<open>getMonth()\<close> of \<open>new Date()\<close>, and \<open>last90Days\<close> is the time
  value of the date ninety days before it (both taken as fixed during one operation);
  \<open>parseDate s\<close> gives \<open>getFullYear()\<close> and \<open>getMonth()\<close> of \<open>new Date(s)\<close> in the
  local time zone and \<open>getTime s\<close> its time value, \<open>None\<close> for an invalid date.
\<close>

record Host =
  dateNow :: "nat \<Rightarrow> nat"
  nowFullYear :: int
  nowMonth :: int
  last90Days :: real
  parseDate :: "string \<Rightarrow> (int \<times> int) option"
  getTime :: "string \<Rightarrow> real option"

section \<open>Goals\<close>

datatype error = GoalNotFound

record GoalProgress =
  progress :: real
  monthsRemaining :: jsnum
  onTrack :: bool
  recommendedMonthly :: real

text \<open>
  \<open>calculateGoalProgress\<close> throws \<open>Error('Goal not found')\<close> when \<open>find\<close> gives nothing;
  the model returns \<open>Inl GoalNotFound\<close>. Each of its divisions stands under a test that
  the divisor is positive, so it is the division of \<open>real\<close>. \<open>goal.targetDate\<close> is
  truthy when it is a non-empty string and \<open>goal.monthlyFunding\<close> when it is a number
  other than \<open>0\<close>. An invalid target date makes \<open>monthsRemaining\<close> \<open>NaN\<close>, which fails
  the test \<open>monthsRemaining > 0\<close>.
\<close>

definition calculateGoalProgress :: "Host \<Rightarrow> BudgetData \<Rightarrow> string \<Rightarrow> error + GoalProgress" where
  "calculateGoalProgress h d goalId =
     (case find (\<lambda>g. goal_id g = goalId) (goals d) of
        None \<Rightarrow> Inl GoalNotFound
      | Some goal \<Rightarrow>
          (let currentAmount = goal_currentAmount goal;
               progress =
                 (if goal_targetAmount goal > 0
                  then (currentAmount / goal_targetAmount goal) * 100 else 0);
               targetDate = (case goal_targetDate goal of None \<Rightarrow> [] | Some s \<Rightarrow> s);
               monthlyFunding = (case goal_monthlyFunding goal of None \<Rightarrow> 0 | Some f \<Rightarrow> f)
           in if goal_type goal = target_date \<and> targetDate \<noteq> [] then
                (case parseDate h targetDate of
                   None \<Rightarrow>
                     Inr \<lparr>progress = progress, monthsRemaining = NaN, onTrack = True,
                          recommendedMonthly = 0\<rparr>
                 | Some (targetYear, targetMonth) \<Rightarrow>
                     (let months =
                            max 0 ((targetYear - nowFullYear h) * 12 + (targetMonth - nowMonth h))
                      in if months > 0 then
                           (let recommended =
                                  (goal_targetAmount goal - currentAmount) / of_int months
                            in Inr \<lparr>progress = progress, monthsRemaining = Fin (of_int months),
                                    onTrack = (if monthlyFunding \<noteq> 0
                                               then monthlyFunding \<ge> recommended else False),
                                    recommendedMonthly = recommended\<rparr>)
                         else Inr \<lparr>progress = progress, monthsRemaining = Fin (of_int months),
                                   onTrack = True, recommendedMonthly = 0\<rparr>))
              else if goal_type goal = monthly_funding \<and> monthlyFunding \<noteq> 0 then
                (let recommended = monthlyFunding
                 in Inr \<lparr>progress = progress,
                         monthsRemaining =
                           (if recommended > 0
                            then Fin (of_int \<lceil>(goal_targetAmount goal - currentAmount) / recommended\<rceil>)
                            else Fin 0),
                         onTrack = True, recommendedMonthly = recommended\<rparr>)
              else Inr \<lparr>progress = progress, monthsRemaining = Fin 0, onTrack = True,
                        recommendedMonthly = 0\<rparr>))"

section \<open>Automatic assignment\<close>

definition getOverspentCategories :: "BudgetData \<Rightarrow> string \<Rightarrow> string list" where
  "getOverspentCategories d month =
     map bud_categoryId
       (filter (\<lambda>b. calculateCategoryAvailable d (bud_categoryId b) month < 0)
          (filter (\<lambda>b. bud_month b = month) (budgets d)))"

text \<open>
  The two loops of \<open>autoAssignMoney\<close>. The state is the ledger, the array \<open>assigned\<close>
  (the positions of the records pushed so far) and \<open>remainingMoney\<close>; the test
  \<open>remainingMoney <= 0\<close> at the head of each round is the \<open>break\<close>, and
  \<open>remainingMoney -= toAssign\<close> is the subtraction of doubles. Every call of
  \<open>assignMoney\<close> is followed by one push, so the calls made so far are as many as the
  entries of \<open>assigned\<close>.
\<close>

fun coverOverspent ::
  "Host \<Rightarrow> string \<Rightarrow> string list \<Rightarrow> BudgetData \<Rightarrow> nat list \<Rightarrow> real
     \<Rightarrow> BudgetData \<times> nat list \<times> real" where
  "coverOverspent h month [] d assigned remainingMoney = (d, assigned, remainingMoney)"
| "coverOverspent h month (categoryId # rest) d assigned remainingMoney =
     (if remainingMoney \<le> 0 then (d, assigned, remainingMoney)
      else (let needed = \<bar>calculateCategoryAvailable d categoryId month\<bar>;
                toAssign = min needed remainingMoney;
                (d', budget) = assignMoney (dateNow h (length assigned)) d categoryId month toAssign
            in coverOverspent h month rest d' (assigned @ [budget])
                 (binary64 (remainingMoney - toAssign))))"

text \<open>
  One round of the second loop, after the \<open>break\<close> test. An exception of
  \<open>calculateGoalProgress\<close> would leave the loop and the operation; the ledger keeps what
  was assigned before.
\<close>

definition fundGoal ::
  "Host \<Rightarrow> string \<Rightarrow> string \<Rightarrow> BudgetData \<Rightarrow> nat list \<Rightarrow> real
     \<Rightarrow> error + BudgetData \<times> nat list \<times> real" where
  "fundGoal h month categoryId d assigned remainingMoney =
     (case find (\<lambda>c. cat_id c = categoryId) (categories d) of
        None \<Rightarrow> Inr (d, assigned, remainingMoney)
      | Some category \<Rightarrow>
          if cat_isGoal category = Some True then
            (case find (\<lambda>g. goal_categoryId g = categoryId \<and> goal_isActive g) (goals d) of
               None \<Rightarrow> Inr (d, assigned, remainingMoney)
             | Some goal \<Rightarrow>
                 (case calculateGoalProgress h d (goal_id goal) of
                    Inl e \<Rightarrow> Inl e
                  | Inr p \<Rightarrow>
                      (let currentAssigned =
                             (case find (\<lambda>b. bud_categoryId b = categoryId \<and> bud_month b = month)
                                     (budgets d) of
                                None \<Rightarrow> 0 | Some b \<Rightarrow> bud_assigned b);
                           toAssign =
                             min (max 0 (binary64 (recommendedMonthly p - currentAssigned)))
                               remainingMoney
                       in if toAssign > 0 then
                            (let (d', budget) =
                                   assignMoney (dateNow h (length assigned)) d categoryId month toAssign
                             in Inr (d', assigned @ [budget],
                                     binary64 (remainingMoney - toAssign)))
                          else Inr (d, assigned, remainingMoney))))
          else Inr (d, assigned, remainingMoney))"

fun fundGoals ::
  "Host \<Rightarrow> string \<Rightarrow> string list \<Rightarrow> BudgetData \<Rightarrow> nat list \<Rightarrow> real
     \<Rightarrow> BudgetData \<times> (error + nat list)" where
  "fundGoals h month [] d assigned remainingMoney = (d, Inr assigned)"
| "fundGoals h month (categoryId # rest) d assigned remainingMoney =
     (if remainingMoney \<le> 0 then (d, Inr assigned)
      else (case fundGoal h month categoryId d assigned remainingMoney of
              Inl e \<Rightarrow> (d, Inl e)
            | Inr (d', assigned', remainingMoney') \<Rightarrow>
                fundGoals h month rest d' assigned' remainingMoney'))"

text \<open>
  \<open>autoAssignMoney\<close> gives the ledger after the call and either the exception that
  left it or the array it returns: the records at the pushed positions, as they stand
  in the ledger when the call returns.
\<close>

definition autoAssignMoney ::
  "Host \<Rightarrow> BudgetData \<Rightarrow> string \<Rightarrow> string list \<Rightarrow> BudgetData \<times> (error + Budget list)" where
  "autoAssignMoney h d month priorities =
     (let tbb = toBeBudgeted (getMonthlyBudgetSummary d month)
      in if tbb \<le> 0 then (d, Inr [])
         else (let overspentCategories = getOverspentCategories d month;
                   (d1, assigned1, remainingMoney1) =
                     coverOverspent h month overspentCategories d [] tbb
               in (case fundGoals h month priorities d1 assigned1 remainingMoney1 of
                     (d2, Inl e) \<Rightarrow> (d2, Inl e)
                   | (d2, Inr assigned) \<Rightarrow> (d2, Inr (map (\<lambda>i. budgets d2 ! i) assigned)))))"

section \<open>Debt payoff planning\<close>

datatype strategy = snowball | avalanche

record PlanEntry =
  plan_accountId :: string
  plan_name :: string
  plan_balance :: real
  plan_interestRate :: real
  plan_minimumPayment :: jsnum
  plan_payoffOrder :: nat
  plan_monthsToPayoff :: jsnum
  plan_totalInterest :: jsnum

record PayoffTime =
  months :: jsnum
  totalInterest :: jsnum

definition getDebtAccounts :: "BudgetData \<Rightarrow> Account list" where
  "getDebtAccounts d =
     filter (\<lambda>account. acc_type account = credit_card \<or> acc_type account = loan) (accounts d)"

text \<open>\<open>Math.pow\<close> with the whole exponent \<open>numPayments\<close> is the power of \<open>real\<close>.\<close>

definition calculateLoanPayment :: "real \<Rightarrow> real \<Rightarrow> nat \<Rightarrow> jsnum" where
  "calculateLoanPayment balance annualRate years =
     (let monthlyRate = annualRate / 100 / 12;
          numPayments = years * 12
      in if monthlyRate = 0 then jdiv (Fin balance) (Fin (real numPayments))
         else jdiv (Fin (balance * (monthlyRate * (1 + monthlyRate) ^ numPayments)))
                (Fin ((1 + monthlyRate) ^ numPayments - 1)))"

text \<open>
  \<open>calculatePayoffTime\<close>, every operation rounded as the program rounds it; the first
  argument is the implementation's \<open>Math.log\<close>.
\<close>

definition calculatePayoffTime :: "(real \<Rightarrow> real) \<Rightarrow> real \<Rightarrow> real \<Rightarrow> jsnum \<Rightarrow> PayoffTime" where
  "calculatePayoffTime mathLog balance annualRate payment =
     (if jle0 payment then \<lparr>months = PosInf, totalInterest = Fin 0\<rparr>
      else (let monthlyRate = binary64 (binary64 (annualRate / 100) / 12)
            in if monthlyRate = 0
               then \<lparr>months = jceil (jfl (jdiv (Fin balance) payment)), totalInterest = Fin 0\<rparr>
               else (let m = jceil
                               (jfl (jdiv
                                  (jneg (jlog mathLog
                                     (jfl (jsub (Fin 1)
                                        (jfl (jdiv (Fin (binary64 (balance * monthlyRate)))
                                                payment))))))
                                  (jlog mathLog (Fin (binary64 (1 + monthlyRate))))));
                         interest = jfl (jsub (jfl (jmul payment m)) (Fin balance))
                     in \<lparr>months = m, totalInterest = jmax (Fin 0) interest\<rparr>)))"

text \<open>
  The entry that \<open>map\<close> builds for one debt account. \<open>debt.interestRate || 0\<close> is \<open>0\<close> for
  an unset rate, and the test \<open>debt.interestRate ? ... : 0\<close> fails for an unset rate and
  for the rate \<open>0\<close>. \<open>calculateLoanPayment\<close> is called with its default of 10 years.
\<close>

definition planEntry :: "Account \<Rightarrow> PlanEntry" where
  "planEntry debt =
     \<lparr>plan_accountId = acc_id debt,
      plan_name = acc_name debt,
      plan_balance = \<bar>acc_balance debt\<bar>,
      plan_interestRate = (case acc_interestRate debt of None \<Rightarrow> 0 | Some r \<Rightarrow> r),
      plan_minimumPayment =
        (if acc_type debt = credit_card then Fin (max 25 (\<bar>acc_balance debt\<bar> * 0.02))
         else (case acc_interestRate debt of
                 None \<Rightarrow> Fin 0
               | Some r \<Rightarrow> if r \<noteq> 0 then calculateLoanPayment \<bar>acc_balance debt\<bar> r 10 else Fin 0)),
      plan_payoffOrder = 0,
      plan_monthsToPayoff = Fin 0,
      plan_totalInterest = Fin 0\<rparr>"

text \<open>
  \<open>Array.prototype.sort\<close> is a stable sort; with a comparator that orders its arguments
  consistently (here the difference of two finite keys) its result is the one of the
  stable insertion sort: an element goes before the first one it does not come after.
\<close>

fun insertBy :: "('a \<Rightarrow> 'a \<Rightarrow> real) \<Rightarrow> 'a \<Rightarrow> 'a list \<Rightarrow> 'a list" where
  "insertBy cmp x [] = [x]"
| "insertBy cmp x (y # ys) = (if cmp x y \<le> 0 then x # y # ys else y # insertBy cmp x ys)"

fun sortBy :: "('a \<Rightarrow> 'a \<Rightarrow> real) \<Rightarrow> 'a list \<Rightarrow> 'a list" where
  "sortBy cmp [] = []"
| "sortBy cmp (x # xs) = insertBy cmp x (sortBy cmp xs)"

text \<open>The body of \<open>forEach\<close>, for the entry \<open>debt\<close> at position \<open>index\<close>.\<close>

definition planStep :: "(real \<Rightarrow> real) \<Rightarrow> real \<Rightarrow> nat \<Rightarrow> PlanEntry \<Rightarrow> PlanEntry" where
  "planStep mathLog extraPayment index debt =
     (let p = calculatePayoffTime mathLog (plan_balance debt) (plan_interestRate debt)
                (jadd (plan_minimumPayment debt) (Fin (if index = 0 then extraPayment else 0)))
      in debt\<lparr>plan_payoffOrder := index + 1,
              plan_monthsToPayoff := months p,
              plan_totalInterest := totalInterest p\<rparr>)"

definition calculateDebtPayoffPlan ::
  "(real \<Rightarrow> real) \<Rightarrow> BudgetData \<Rightarrow> real \<Rightarrow> strategy \<Rightarrow> PlanEntry list" where
  "calculateDebtPayoffPlan mathLog d extraPayment strat =
     (let debtAccounts = getDebtAccounts d;
          plan = map planEntry debtAccounts;
          sorted =
            (if strat = avalanche
             then sortBy (\<lambda>a b. plan_interestRate b - plan_interestRate a) plan
             else sortBy (\<lambda>a b. plan_balance a - plan_balance b) plan)
      in map (\<lambda>(index, debt). planStep mathLog extraPayment index debt) (enumerate 0 sorted))"

section \<open>Net worth and analytics\<close>

record NetWorth =
  assets :: real
  liabilities :: real
  netWorth :: real
  accountBreakdown :: "string \<rightharpoonup> real"

definition calculateNetWorth :: "BudgetData \<Rightarrow> NetWorth" where
  "calculateNetWorth d =
     (let (breakdown, a, l) =
            foldl (\<lambda>(breakdown, a, l) account.
                     (breakdown(acc_name account \<mapsto> acc_balance account),
                      (if acc_balance account \<ge> 0 then a + acc_balance account else a),
                      (if acc_balance account \<ge> 0 then l else l + \<bar>acc_balance account\<bar>)))
              (Map.empty, 0, 0) (accounts d)
      in \<lparr>assets = a, liabilities = l, netWorth = a - l, accountBreakdown = breakdown\<rparr>)"

text \<open>
  \<open>calculateAgeOfMoney\<close>: a transaction whose date is invalid fails the comparison
  with \<open>last90Days\<close> and is dropped, so the time value of every recent transaction is
  a number; the model keeps it beside the transaction. Both averages divide by a length
  that was tested not to be \<open>0\<close>. \<open>Math.round\<close> rounds a half up.
\<close>

definition calculateAgeOfMoney :: "Host \<Rightarrow> BudgetData \<Rightarrow> int" where
  "calculateAgeOfMoney h d =
     (let recentTransactions =
            List.map_filter
              (\<lambda>t. case getTime h (txn_date t) of
                     None \<Rightarrow> None
                   | Some ms \<Rightarrow> if ms \<ge> last90Days h then Some (t, ms) else None)
              (transactions d);
          incomeTransactions = filter (\<lambda>(t, ms). txn_type t = income) recentTransactions;
          expenseTransactions = filter (\<lambda>(t, ms). txn_type t = expense) recentTransactions
      in if length incomeTransactions = 0 \<or> length expenseTransactions = 0 then 0
         else (let avgIncomeDate =
                     foldl (\<lambda>sum (t, ms). sum + ms) 0 incomeTransactions
                       / real (length incomeTransactions);
                   avgExpenseDate =
                     foldl (\<lambda>sum (t, ms). sum + ms) 0 expenseTransactions
                       / real (length expenseTransactions);
                   daysDifference = (avgExpenseDate - avgIncomeDate) / (1000 * 60 * 60 * 24)
               in max 0 \<lfloor>daysDifference + 1 / 2\<rfloor>))"

section \<open>The terms of the specification\<close>

text \<open>
  The quantities the specification names, written as it words them: the \<open>assigned\<close>
  field of the Budget record of a category and month (\<open>0\<close> if absent), the \<open>available\<close>
  field stored in that record (\<open>0\<close> if absent), the signed sum of the category's
  transactions dated in the month (expenses negative), the income of a month and the
  total assigned in a month.
\<close>

definition assignedField :: "BudgetData \<Rightarrow> string \<Rightarrow> string \<Rightarrow> real" where
  "assignedField d c m =
     (case find (\<lambda>b. bud_categoryId b = c \<and> bud_month b = m) (budgets d) of
        None \<Rightarrow> 0 | Some b \<Rightarrow> bud_assigned b)"






text \<open>The text of a month: the year, a dash and the month in two digits.\<close>

definition monthText :: "nat \<Rightarrow> nat \<Rightarrow> string" where
  "monthText year monthNum = String year @ ''-'' @ padStart2 (String monthNum)"

text \<open>
  The identity of a Budget record is its category and month; a ledger has unique
  budgets when no two records share one. \<open>returnedBudget\<close> reads the record that
  \<open>assignMoney\<close> returns; \<open>totalAssignedAll\<close> sums \<open>assigned\<close> over all records.
\<close>

definition budgetKey :: "Budget \<Rightarrow> string \<times> string" where
  "budgetKey b = (bud_categoryId b, bud_month b)"

definition uniqueBudgets :: "BudgetData \<Rightarrow> bool" where
  "uniqueBudgets d = distinct (map budgetKey (budgets d))"

definition returnedBudget :: "BudgetData \<times> nat \<Rightarrow> Budget" where
  "returnedBudget r = budgets (fst r) ! snd r"

definition totalAssignedAll :: "BudgetData \<Rightarrow> real" where
  "totalAssignedAll d = (\<Sum>b\<leftarrow>budgets d. bud_assigned b)"

text \<open>A sequence of calls of the two operations that write the ledger.\<close>

datatype call = AssignMoney nat string string real | AutoAssignMoney Host string "string list"

fun perform :: "call \<Rightarrow> BudgetData \<Rightarrow> BudgetData" where
  "perform (AssignMoney now categoryId month amount) d =
     fst (assignMoney now d categoryId month amount)"
| "perform (AutoAssignMoney h month priorities) d = fst (autoAssignMoney h d month priorities)"

definition performAll :: "call list \<Rightarrow> BudgetData \<Rightarrow> BudgetData" where
  "performAll calls d = foldl (\<lambda>d c. perform c d) d calls"

text \<open>
  An entry of the plan before \<open>forEach\<close> has ranked it, the plan as sorted before the
  ranking, and a Budget record without its id. The monthly rate of a debt and the
  interest of its first month, as doubles: the values \<open>annualRate / 100 / 12\<close> and
  \<open>balance * monthlyRate\<close> of \<open>calculatePayoffTime\<close>.
\<close>

definition monthlyRateOf :: "real \<Rightarrow> real" where
  "monthlyRateOf annualRate = binary64 (binary64 (annualRate / 100) / 12)"

definition firstMonthInterest :: "real \<Rightarrow> real \<Rightarrow> real" where
  "firstMonthInterest balance annualRate = binary64 (balance * monthlyRateOf annualRate)"

definition unplanned :: "PlanEntry \<Rightarrow> PlanEntry" where
  "unplanned e = e\<lparr>plan_payoffOrder := 0, plan_monthsToPayoff := Fin 0, plan_totalInterest := Fin 0\<rparr>"

definition sortedPlan :: "BudgetData \<Rightarrow> strategy \<Rightarrow> PlanEntry list" where
  "sortedPlan d strat =
     (if strat = avalanche
      then sortBy (\<lambda>a b. plan_interestRate b - plan_interestRate a) (map planEntry (getDebtAccounts d))
      else sortBy (\<lambda>a b. plan_balance a - plan_balance b) (map planEntry (getDebtAccounts d)))"

definition eraseId :: "Budget \<Rightarrow> Budget" where
  "eraseId b = b\<lparr>bud_id := []\<rparr>"

section \<open>Example ledgers\<close>

definition emptyLedger :: BudgetData where
  "emptyLedger = \<lparr>accounts = [], categories = [], transactions = [], budgets = [], goals = []\<rparr>"

text \<open>
  Two records of one category for December and January, first with nothing assigned,
  then as two calls of \<open>assignMoney\<close> leave them: 5 to January, then 7 to December.
\<close>

definition zeroLedger :: BudgetData where
  "zeroLedger = emptyLedger\<lparr>budgets :=
     [\<lparr>bud_id = ''b1'', bud_categoryId = ''rent'', bud_month = ''2023-12'',
       bud_assigned = 0, bud_activity = 0, bud_available = 0\<rparr>,
      \<lparr>bud_id = ''b2'', bud_categoryId = ''rent'', bud_month = ''2024-01'',
       bud_assigned = 0, bud_activity = 0, bud_available = 0\<rparr>]\<rparr>"

definition staleLedger :: BudgetData where
  "staleLedger = emptyLedger\<lparr>budgets :=
     [\<lparr>bud_id = ''b1'', bud_categoryId = ''rent'', bud_month = ''2023-12'',
       bud_assigned = 7, bud_activity = 0, bud_available = 7\<rparr>,
      \<lparr>bud_id = ''b2'', bud_categoryId = ''rent'', bud_month = ''2024-01'',
       bud_assigned = 5, bud_activity = 0, bud_available = 5\<rparr>]\<rparr>"






text \<open>
  A Budget record whose \<open>assigned\<close> is the double \<open>0.1\<close>.
\<close>

definition tenthLedger :: BudgetData where
  "tenthLedger = emptyLedger\<lparr>budgets :=
     [\<lparr>bud_id = ''b1'', bud_categoryId = ''rent'', bud_month = ''2024-01'',
       bud_assigned = binary64 (1 / 10), bud_activity = 0, bud_available = binary64 (1 / 10)\<rparr>]\<rparr>"

text \<open>
  A ledger of March 2024 with an income of 807.84 and two envelopes with nothing
  assigned, overspent by 236.93 and by 865.61 (the amounts are the doubles that these
  decimals denote).
\<close>

definition roundingLedger :: BudgetData where
  "roundingLedger = emptyLedger\<lparr>
     categories := [\<lparr>cat_id = ''food'', cat_isGoal = None\<rparr>,
                    \<lparr>cat_id = ''rent'', cat_isGoal = None\<rparr>],
     transactions :=
       [\<lparr>txn_type = income, txn_categoryId = ''salary'', txn_amount = binary64 (80784 / 100),
         txn_date = ''2024-03-01''\<rparr>,
        \<lparr>txn_type = expense, txn_categoryId = ''food'', txn_amount = binary64 (23693 / 100),
         txn_date = ''2024-03-02''\<rparr>,
        \<lparr>txn_type = expense, txn_categoryId = ''rent'', txn_amount = binary64 (86561 / 100),
         txn_date = ''2024-03-03''\<rparr>],
     budgets :=
       [\<lparr>bud_id = ''b1'', bud_categoryId = ''food'', bud_month = ''2024-03'',
         bud_assigned = 0, bud_activity = - binary64 (23693 / 100),
         bud_available = - binary64 (23693 / 100)\<rparr>,
        \<lparr>bud_id = ''b2'', bud_categoryId = ''rent'', bud_month = ''2024-03'',
         bud_assigned = 0, bud_activity = - binary64 (86561 / 100),
         bud_available = - binary64 (86561 / 100)\<rparr>]\<rparr>"

text \<open>
  A host in March 2024, and a ledger of that month: an income of 100, an envelope
  overspent by 30, and a goal of 300 due in September.
\<close>

definition exHost :: Host where
  "exHost = \<lparr>dateNow = (\<lambda>k. 1700000000000 + k), nowFullYear = 2024, nowMonth = 2,
     last90Days = 1692000000000,
     parseDate = (\<lambda>s. if s = ''2024-09-01'' then Some (2024, 8) else None),
     getTime = (\<lambda>s. None)\<rparr>"

definition marchLedger :: BudgetData where
  "marchLedger = emptyLedger\<lparr>
     categories := [\<lparr>cat_id = ''rent'', cat_isGoal = None\<rparr>,
                    \<lparr>cat_id = ''vacation'', cat_isGoal = Some True\<rparr>],
     transactions :=
       [\<lparr>txn_type = income, txn_categoryId = ''salary'', txn_amount = 100, txn_date = ''2024-03-01''\<rparr>,
        \<lparr>txn_type = expense, txn_categoryId = ''rent'', txn_amount = 30, txn_date = ''2024-03-05''\<rparr>],
     budgets :=
       [\<lparr>bud_id = ''b1'', bud_categoryId = ''rent'', bud_month = ''2024-03'',
         bud_assigned = 0, bud_activity = - 30, bud_available = - 30\<rparr>],
     goals :=
       [\<lparr>goal_id = ''g1'', goal_categoryId = ''vacation'', goal_type = target_date,
         goal_targetAmount = 300, goal_targetDate = Some ''2024-09-01'',
         goal_monthlyFunding = Some 50, goal_currentAmount = 0, goal_isActive = True\<rparr>]\<rparr>"

text \<open>
  A goal with a target below zero; a goal a quarter funded; the host a month later.
\<close>

definition negativeGoal :: Goal where
  "negativeGoal = \<lparr>goal_id = ''g1'', goal_categoryId = ''vacation'', goal_type = target_balance,
     goal_targetAmount = - 100, goal_targetDate = None, goal_monthlyFunding = None,
     goal_currentAmount = 50, goal_isActive = True\<rparr>"

definition negativeGoalLedger :: BudgetData where
  "negativeGoalLedger = emptyLedger\<lparr>goals := [negativeGoal]\<rparr>"

definition savingsGoal :: Goal where
  "savingsGoal = \<lparr>goal_id = ''g2'', goal_categoryId = ''house'', goal_type = target_balance,
     goal_targetAmount = 6000, goal_targetDate = None, goal_monthlyFunding = None,
     goal_currentAmount = 1500, goal_isActive = True\<rparr>"

definition savingsLedger :: BudgetData where
  "savingsLedger = emptyLedger\<lparr>goals := [savingsGoal]\<rparr>"

definition aprilHost :: Host where
  "aprilHost = exHost\<lparr>nowMonth := 3\<rparr>"

text \<open>The host \<open>exHost\<close> with another \<open>Date\<close> library for time values.\<close>

definition otherHost :: Host where
  "otherHost = exHost\<lparr>last90Days := 0, getTime := (\<lambda>s. Some 0)\<rparr>"

text \<open>
  Debt accounts: a loan with no interest rate, a loan of 10000 at 6 percent, a credit
  card whose minimum payment is below its monthly interest, three credit cards with
  the rates 24, 12 and 5 percent and the balances 500, 5000 and 1000, and two cards
  without interest with the balances 1000 and 500. \<open>roundedLog\<close> is a \<open>Math.log\<close> that
  gives the double nearest to the natural logarithm.
\<close>

definition roundedLog :: "real \<Rightarrow> real" where
  "roundedLog x = binary64 (ln x)"


definition carLoan :: Account where
  "carLoan = \<lparr>acc_id = ''car'', acc_name = ''Car loan'', acc_type = loan,
     acc_balance = - 1200, acc_interestRate = None\<rparr>"

definition loanLedger :: BudgetData where
  "loanLedger = emptyLedger\<lparr>accounts := [carLoan]\<rparr>"

definition mortgage :: Account where
  "mortgage = \<lparr>acc_id = ''home'', acc_name = ''Home loan'', acc_type = loan,
     acc_balance = - 10000, acc_interestRate = Some 6\<rparr>"

definition mortgageLedger :: BudgetData where
  "mortgageLedger = emptyLedger\<lparr>accounts := [mortgage]\<rparr>"

definition cardLedger :: BudgetData where
  "cardLedger = emptyLedger\<lparr>accounts :=
     [\<lparr>acc_id = ''visa'', acc_name = ''Visa'', acc_type = credit_card, acc_balance = - 10000,
       acc_interestRate = Some 36\<rparr>]\<rparr>"


section \<open>Properties\<close>

subsection \<open>Rounding to a double\<close>

lemma roundHalfEven_cases:
  "roundHalfEven y = \<lfloor>y\<rfloor> \<or> (roundHalfEven y = \<lfloor>y\<rfloor> + 1 \<and> 1 / 2 \<le> y - of_int \<lfloor>y\<rfloor>)"
  by (simp add: roundHalfEven_def Let_def)

lemma roundHalfEven_ge: "of_int n \<le> y \<Longrightarrow> n \<le> roundHalfEven y"
  using roundHalfEven_cases[of y] le_floor_iff[of n y] by linarith

lemma roundHalfEven_le: "y \<le> of_int n \<Longrightarrow> roundHalfEven y \<le> n"
proof -
  assume a: "y \<le> of_int n"
  have f: "\<lfloor>y\<rfloor> \<le> n" using a by (simp add: floor_le_iff)
  from roundHalfEven_cases[of y] show ?thesis
  proof
    assume "roundHalfEven y = \<lfloor>y\<rfloor>"
    with f show ?thesis by simp
  next
    assume b: "roundHalfEven y = \<lfloor>y\<rfloor> + 1 \<and> 1 / 2 \<le> y - of_int \<lfloor>y\<rfloor>"
    then have "real_of_int \<lfloor>y\<rfloor> < of_int n" using a by linarith
    then have "\<lfloor>y\<rfloor> < n" by simp
    with b show ?thesis by simp
  qed
qed

lemma roundHalfEven_int: "roundHalfEven (of_int k) = k"
  by (simp add: roundHalfEven_def)

lemma roundHalfEven_minus: "roundHalfEven (- y) = - roundHalfEven y"
proof (cases "y = of_int \<lfloor>y\<rfloor>")
  case True
  then obtain k where "y = of_int k" by blast
  then have "roundHalfEven y = k" "roundHalfEven (- y) = - k"
    using roundHalfEven_int[of k] roundHalfEven_int[of "- k"] by simp_all
  then show ?thesis by simp
next
  case False
  then have "y \<notin> \<int>" by (metis Ints_cases floor_of_int)
  then have f: "\<lfloor>- y\<rfloor> = - \<lfloor>y\<rfloor> - 1"
    using ceiling_altdef[of y] ceiling_def[of y] by (simp add: False)
  show ?thesis
    unfolding roundHalfEven_def Let_def f by (auto simp: algebra_simps)
qed

lemma power_int_two_pos: "0 < (2::real) powi e"
  by simp

lemma exponent_bounds:
  assumes "x \<noteq> 0"
  shows "2 powi \<lfloor>log 2 \<bar>x\<bar>\<rfloor> \<le> \<bar>x\<bar> \<and> \<bar>x\<bar> < 2 powi (\<lfloor>log 2 \<bar>x\<bar>\<rfloor> + 1)"
proof -
  have p: "0 < \<bar>x\<bar>" using assms by simp
  have a: "2 powr (real_of_int e) = 2 powi e" "2 powr (real_of_int e + 1) = 2 powi (e + 1)" for e
    using powr_real_of_int'[of 2 e] powr_real_of_int'[of 2 "e + 1"] by simp_all
  from floor_log_eq_powr_iff[of "\<bar>x\<bar>" 2 "\<lfloor>log 2 \<bar>x\<bar>\<rfloor>"] p
  show ?thesis unfolding a by simp
qed

lemma exponent_unique:
  assumes "2 powi e \<le> \<bar>x\<bar>" "\<bar>x\<bar> < 2 powi (e + 1)"
  shows "\<lfloor>log 2 \<bar>x\<bar>\<rfloor> = e"
proof -
  have p: "0 < \<bar>x\<bar>" using assms(1) power_int_two_pos[of e] by linarith
  have a: "2 powr (real_of_int e) = 2 powi e" "2 powr (real_of_int e + 1) = 2 powi (e + 1)"
    using powr_real_of_int'[of 2 e] powr_real_of_int'[of 2 "e + 1"] by simp_all
  have "2 powr (real_of_int e) \<le> \<bar>x\<bar> \<and> \<bar>x\<bar> < 2 powr (real_of_int e + 1)"
    unfolding a using assms by simp
  then show ?thesis
    using floor_log_eq_powr_iff[of "\<bar>x\<bar>" 2 e] p by simp
qed

lemma binary64_zero: "binary64 0 = 0"
  by (simp add: binary64_def)

lemma binary64_grid:
  "x \<noteq> 0 \<Longrightarrow> binary64 x = of_int (roundHalfEven (x / 2 powi lastPlace x)) * 2 powi lastPlace x"
  by (simp add: binary64_def)

lemma binary64_any:
  assumes "2 powi e \<le> \<bar>x\<bar>" "\<bar>x\<bar> < 2 powi (e + 1)"
  shows "binary64 x = of_int (roundHalfEven (x / 2 powi (max e (- 1022) - 52)))
                        * 2 powi (max e (- 1022) - 52)"
proof -
  have p: "0 < \<bar>x\<bar>" using assms(1) power_int_two_pos[of e] by linarith
  with exponent_unique[OF assms] show ?thesis by (simp add: binary64_def lastPlace_def)
qed

lemma binary64_at:
  assumes "2 powi e \<le> \<bar>x\<bar>" "\<bar>x\<bar> < 2 powi (e + 1)" "- 1022 \<le> e"
  shows "binary64 x = of_int (roundHalfEven (x / 2 powi (e - 52))) * 2 powi (e - 52)"
  using binary64_any[OF assms(1,2)] assms(3) by (simp add: max_def)

lemma binary64_minus: "binary64 (- x) = - binary64 x"
  by (simp add: binary64_def lastPlace_def roundHalfEven_minus)

lemma binary64_nonneg: "0 \<le> x \<Longrightarrow> 0 \<le> binary64 x"
  using roundHalfEven_ge[of 0 "x / 2 powi lastPlace x"] by (simp add: binary64_def)

lemma binary64_nonpos: "x \<le> 0 \<Longrightarrow> binary64 x \<le> 0"
  using binary64_nonneg[of "- x"] by (simp add: binary64_minus)

lemma power_int_two_less: "(2::real) powi a < 2 powi b \<longleftrightarrow> a < b"
proof
  assume l: "(2::real) powi a < 2 powi b"
  show "a < b"
  proof (rule ccontr)
    assume "\<not> a < b"
    then have "b \<le> a" by simp
    from power_int_increasing[OF this, of "2::real"] l show False by simp
  qed
next
  assume "a < b"
  then show "(2::real) powi a < 2 powi b" by (rule power_int_strict_increasing) simp
qed

lemma power_int_two_le: "(2::real) powi a \<le> 2 powi b \<longleftrightarrow> a \<le> b"
  using power_int_two_less[of b a] by (simp add: not_less[symmetric])

lemma binary64_lower:
  assumes "2 powi k \<le> x" "- 1022 \<le> k"
  shows "2 powi k \<le> binary64 x"
proof -
  have x: "0 < x" using assms(1) power_int_two_pos[of k] by linarith
  define e where "e = \<lfloor>log 2 \<bar>x\<bar>\<rfloor>"
  from exponent_bounds[of x] x have b: "2 powi e \<le> x" "x < 2 powi (e + 1)"
    by (simp_all add: e_def)
  have "2 powi k < (2::real) powi (e + 1)" using assms(1) b(2) by linarith
  then have ke: "k \<le> e" by (simp add: power_int_two_less)
  then have e: "- 1022 \<le> e" using assms(2) by simp
  define u :: real where "u = 2 powi (e - 52)"
  have u: "0 < u" by (simp add: u_def)
  have "2 powi e / u = (2::real) powi 52" unfolding u_def
    by (subst power_int_diff[symmetric]) simp_all
  then have "real_of_int (2 ^ 52) \<le> x / u"
    using b(1) u by (simp add: pos_le_divide_eq) (metis divide_right_mono less_eq_real_def pos_le_divide_eq)
  from roundHalfEven_ge[OF this] have "real_of_int (2 ^ 52) * u \<le> of_int (roundHalfEven (x / u)) * u"
    using u by (simp del: of_int_power of_int_numeral)
  moreover have "real_of_int (2 ^ 52) * u = 2 powi e" unfolding u_def
    using power_int_add[of "2::real" 52 "e - 52"] by simp
  moreover have "binary64 x = of_int (roundHalfEven (x / u)) * u"
    unfolding u_def using binary64_at[of e x] b x e by simp
  ultimately have "2 powi e \<le> binary64 x" by simp
  moreover have "(2::real) powi k \<le> 2 powi e" using ke by (simp add: power_int_two_le)
  ultimately show ?thesis by linarith
qed

lemma binary64_upper:
  assumes "0 < x" "x \<le> 2 powi k" "- 1022 \<le> k"
  shows "binary64 x \<le> 2 powi k"
proof -
  define e where "e = \<lfloor>log 2 \<bar>x\<bar>\<rfloor>"
  from exponent_bounds[of x] assms(1) have b: "2 powi e \<le> x" "x < 2 powi (e + 1)"
    by (simp_all add: e_def)
  have "2 powi e \<le> (2::real) powi k" using assms(2) b(1) by linarith
  then have ek: "e \<le> k" by (simp add: power_int_two_le)
  define e' where "e' = max e (- 1022)"
  have e': "e' \<le> k" using ek assms(3) by (simp add: e'_def)
  define u :: real where "u = 2 powi (e' - 52)"
  have u: "0 < u" by (simp add: u_def)
  define n where "n = nat (k - e' + 52)"
  have "2 powi k / u = (2::real) powi (k - e' + 52)" unfolding u_def
    by (subst power_int_diff[symmetric]) (simp_all add: algebra_simps)
  also have "\<dots> = 2 ^ n" unfolding n_def using e' by (simp add: power_int_nonneg_exp)
  finally have q: "2 powi k / u = real_of_int (2 ^ n)" by simp
  have "x / u \<le> 2 powi k / u" using assms(2) u by (simp add: divide_right_mono)
  then have "x / u \<le> real_of_int (2 ^ n)" unfolding q .
  from roundHalfEven_le[OF this] have "of_int (roundHalfEven (x / u)) * u \<le> real_of_int (2 ^ n) * u"
    using u by (simp del: of_int_power of_int_numeral)
  moreover have "real_of_int (2 ^ n) * u = 2 powi k" using q u by (simp add: field_simps)
  moreover have "binary64 x = of_int (roundHalfEven (x / u)) * u"
    unfolding u_def e'_def using binary64_any[of e x] b assms(1) by simp
  ultimately show ?thesis by simp
qed



lemma binary64_one: "binary64 1 = 1"
  by (subst binary64_at[of 0]) (simp_all add: roundHalfEven_def)

lemma binary64_below_one:
  assumes "binary64 z < 1"
  shows "binary64 z \<le> 1 - 2 powi (- 53)"
proof -
  consider "z \<le> 0" | "0 < z" "z \<le> 1 / 2" | "1 / 2 \<le> z" "z < 1" | "1 \<le> z" by linarith
  then show ?thesis
  proof cases
    case 1
    from binary64_nonpos[OF this] show ?thesis by (simp add: power_int_minus_divide)
  next
    case 2
    from binary64_upper[of z "- 1"] 2 have "binary64 z \<le> 1 / 2" by (simp add: power_int_minus_divide)
    then show ?thesis by (simp add: power_int_minus_divide)
  next
    case 3
    define m where "m = roundHalfEven (z / 2 powi (- 53))"
    have e: "binary64 z = of_int m * 2 powi (- 53)"
      unfolding m_def using binary64_at[of "- 1" z] 3 by (simp add: power_int_minus_divide)
    with assms have "real_of_int m < 2 ^ 53" by (simp add: power_int_minus_divide)
    then have "real_of_int m < real_of_int (2 ^ 53)" by simp
    then have "m < 2 ^ 53" by (simp only: of_int_less_iff)
    then have "m \<le> 2 ^ 53 - 1" by simp
    then have "real_of_int m \<le> real_of_int (2 ^ 53 - 1)" by (simp only: of_int_le_iff)
    then show ?thesis unfolding e by (simp add: power_int_minus_divide)
  next
    case 4
    from binary64_lower[of 0 z] 4 assms show ?thesis by simp
  qed
qed

lemma binary64_above_one:
  assumes "1 < binary64 z"
  shows "1 + 2 powi (- 52) \<le> binary64 z"
proof -
  consider "z \<le> 0" | "0 < z" "z \<le> 1" | "1 \<le> z" "z < 2" | "2 \<le> z" by linarith
  then show ?thesis
  proof cases
    case 1
    from binary64_nonpos[OF this] assms show ?thesis by simp
  next
    case 2
    from binary64_upper[of z 0] 2 assms show ?thesis by simp
  next
    case 3
    define m where "m = roundHalfEven (z / 2 powi (- 52))"
    have e: "binary64 z = of_int m * 2 powi (- 52)"
      unfolding m_def using binary64_at[of 0 z] 3 by simp
    with assms have "2 ^ 52 < real_of_int m" by (simp add: power_int_minus_divide)
    then have "real_of_int (2 ^ 52) < real_of_int m" by simp
    then have "2 ^ 52 < m" by (simp only: of_int_less_iff)
    then have "2 ^ 52 + 1 \<le> m" by simp
    then have "real_of_int (2 ^ 52 + 1) \<le> real_of_int m" by (simp only: of_int_le_iff)
    then show ?thesis unfolding e by (simp add: power_int_minus_divide)
  next
    case 4
    from binary64_lower[of 1 z] 4 have "2 \<le> binary64 z" by simp
    then show ?thesis by (simp add: power_int_minus_divide)
  qed
qed

text \<open>The sign of \<open>1 - q\<close> after rounding, for a double \<open>q\<close>.\<close>

lemma binary64_one_minus:
  assumes "q = binary64 z"
  shows "(0 < binary64 (1 - q) \<longleftrightarrow> q < 1) \<and> (binary64 (1 - q) = 0 \<longleftrightarrow> q = 1) \<and>
         (binary64 (1 - q) < 0 \<longleftrightarrow> 1 < q)"
proof -
  consider "q < 1" | "q = 1" | "1 < q" by linarith
  then show ?thesis
  proof cases
    case 1
    with binary64_below_one[of z] assms have "2 powi (- 53) \<le> 1 - q" by simp
    from binary64_lower[OF this] have "0 < binary64 (1 - q)"
      using power_int_two_pos[of "- 53"] by linarith
    with 1 show ?thesis by simp
  next
    case 2
    then show ?thesis by (simp add: binary64_zero)
  next
    case 3
    with binary64_above_one[of z] assms have "2 powi (- 52) \<le> q - 1" by simp
    from binary64_lower[OF this] have "0 < binary64 (q - 1)"
      using power_int_two_pos[of "- 52"] by linarith
    moreover have "binary64 (1 - q) = - binary64 (q - 1)"
      using binary64_minus[of "q - 1"] by simp
    ultimately show ?thesis using 3 by simp
  qed
qed



lemma roundHalfEven_le_half: "y < of_int n - 1 / 2 \<Longrightarrow> roundHalfEven y \<le> n - 1"
proof -
  assume a: "y < of_int n - 1 / 2"
  from roundHalfEven_cases[of y] show ?thesis
  proof
    assume r: "roundHalfEven y = \<lfloor>y\<rfloor>"
    have "real_of_int \<lfloor>y\<rfloor> < of_int n" using a of_int_floor_le[of y] by linarith
    then have "\<lfloor>y\<rfloor> < n" by simp
    with r show ?thesis by simp
  next
    assume b: "roundHalfEven y = \<lfloor>y\<rfloor> + 1 \<and> 1 / 2 \<le> y - of_int \<lfloor>y\<rfloor>"
    then have "real_of_int \<lfloor>y\<rfloor> < of_int (n - 1)" using a by simp
    then have "\<lfloor>y\<rfloor> < n - 1" by (simp only: of_int_less_iff)
    with b show ?thesis by simp
  qed
qed

lemma roundHalfEven_ge_half: "of_int n + 1 / 2 < y \<Longrightarrow> n + 1 \<le> roundHalfEven y"
  using roundHalfEven_le_half[of "- y" "- n"] by (simp add: roundHalfEven_minus)

lemma binary64_lt_one:
  assumes "z < 1 - 2 powi (- 54)"
  shows "binary64 z < 1"
proof -
  consider "z \<le> 0" | "0 < z" "z \<le> 1 / 2" | "1 / 2 \<le> z" by linarith
  then show ?thesis
  proof cases
    case 1
    from binary64_nonpos[OF this] show ?thesis by simp
  next
    case 2
    from binary64_upper[of z "- 1"] 2 show ?thesis by (simp add: power_int_minus_divide)
  next
    case 3
    have z1: "z < 1" using assms power_int_two_pos[of "- 54"] by linarith
    have e: "binary64 z = of_int (roundHalfEven (z / 2 powi (- 53))) * 2 powi (- 53)"
      using binary64_at[of "- 1" z] 3 z1 by (simp add: power_int_minus_divide)
    have "z / 2 powi (- 53) < real_of_int (2 ^ 53) - 1 / 2"
      using assms by (simp add: power_int_minus_divide field_simps)
    from roundHalfEven_le_half[OF this]
    have "real_of_int (roundHalfEven (z / 2 powi (- 53))) \<le> real_of_int (2 ^ 53 - 1)"
      by (simp only: of_int_le_iff)
    then show ?thesis unfolding e by (simp add: power_int_minus_divide)
  qed
qed

lemma binary64_gt_one:
  assumes "1 + 2 powi (- 53) < z"
  shows "1 < binary64 z"
proof -
  have z1: "1 < z" using assms power_int_two_pos[of "- 53"] by linarith
  consider "z < 2" | "2 \<le> z" by linarith
  then show ?thesis
  proof cases
    case 1
    have e: "binary64 z = of_int (roundHalfEven (z / 2 powi (- 52))) * 2 powi (- 52)"
      using binary64_at[of 0 z] 1 z1 by simp
    have "real_of_int (2 ^ 52) + 1 / 2 < z / 2 powi (- 52)"
      using assms by (simp add: power_int_minus_divide field_simps)
    from roundHalfEven_ge_half[OF this]
    have "real_of_int (2 ^ 52 + 1) \<le> real_of_int (roundHalfEven (z / 2 powi (- 52)))"
      by (simp only: of_int_le_iff)
    then show ?thesis unfolding e by (simp add: power_int_minus_divide)
  next
    case 2
    from binary64_lower[of 1 z] 2 show ?thesis by simp
  qed
qed


lemma below_next_binade: "x \<noteq> 0 \<Longrightarrow> \<bar>x\<bar> < 2 powi (lastPlace x + 53)"
proof -
  assume "x \<noteq> 0"
  from exponent_bounds[OF this] have "\<bar>x\<bar> < 2 powi (\<lfloor>log 2 \<bar>x\<bar>\<rfloor> + 1)" by simp
  also have "\<dots> \<le> 2 powi (lastPlace x + 53)"
    by (simp add: power_int_two_le lastPlace_def)
  finally show ?thesis .
qed

lemma lastPlace_mono: "0 < x \<Longrightarrow> x \<le> y \<Longrightarrow> lastPlace x \<le> lastPlace y"
proof -
  assume a: "0 < x" "x \<le> y"
  then have "log 2 \<bar>x\<bar> \<le> log 2 \<bar>y\<bar>" by simp
  from floor_mono[OF this] show ?thesis by (simp add: lastPlace_def)
qed

lemma power_int_two_split: "b \<le> a \<Longrightarrow> (2::real) powi a = of_int (2 ^ nat (a - b)) * 2 powi b"
proof -
  assume "b \<le> a"
  then have "(2::real) powi (a - b) = 2 ^ nat (a - b)" by (simp add: power_int_nonneg_exp)
  moreover have "(2::real) powi a = 2 powi (a - b) * 2 powi b"
    by (subst power_int_add[symmetric]) simp_all
  ultimately show ?thesis by simp
qed

text \<open>
  A number is a double when rounding leaves it: it then is a whole multiple of the
  power of two at its last place, and of every smaller one.
\<close>

lemma double_on_grid:
  assumes "binary64 x = x" "x \<noteq> 0" "g \<le> lastPlace x"
  shows "\<exists>k. x = of_int k * 2 powi g"
proof -
  from binary64_grid[OF assms(2)] assms(1) obtain m where "x = of_int m * 2 powi lastPlace x"
    by metis
  then have "x = of_int (m * 2 ^ nat (lastPlace x - g)) * 2 powi g"
    using power_int_two_split[OF assms(3)] by simp
  then show ?thesis by blast
qed

lemma on_grid_double:
  assumes "x = of_int k * 2 powi g" "lastPlace x \<le> g"
  shows "binary64 x = x"
proof (cases "x = 0")
  case True
  then show ?thesis by (simp add: binary64_zero)
next
  case False
  define l where "l = lastPlace x"
  have "x = of_int (k * 2 ^ nat (g - l)) * 2 powi l"
    using power_int_two_split[OF assms(2)] assms(1) by (simp add: l_def)
  then obtain j where j: "x = of_int j * 2 powi l" by blast
  have "of_int j * 2 powi l / 2 powi l = real_of_int j" by simp
  then have "x / 2 powi l = of_int j" by (simp only: j[symmetric])
  then have "binary64 x = of_int j * 2 powi l"
    using binary64_grid[OF False] by (simp only: l_def[symmetric] roundHalfEven_int)
  then show ?thesis by (simp only: j[symmetric])
qed

lemma binary64_idem: "binary64 (binary64 y) = binary64 y"
proof (cases "binary64 y = 0")
  case True
  then show ?thesis by (simp add: binary64_zero)
next
  case False
  then have y: "y \<noteq> 0" by (auto simp: binary64_zero)
  define g where "g = lastPlace y"
  define m where "m = roundHalfEven (y / 2 powi g)"
  define v where "v = binary64 y"
  have v: "v = of_int m * 2 powi g" unfolding v_def m_def g_def by (rule binary64_grid[OF y])
  have m0: "m \<noteq> 0" using False v v_def by auto
  have "\<bar>y\<bar> / 2 powi g < 2 powi 53"
  proof -
    have "\<bar>y\<bar> < 2 powi (g + 53)" unfolding g_def by (rule below_next_binade[OF y])
    also have "\<dots> = 2 powi 53 * 2 powi g" by (subst power_int_add) simp_all
    finally show ?thesis by (simp add: pos_divide_less_eq)
  qed
  moreover have "y / 2 powi g \<le> \<bar>y\<bar> / 2 powi g" "(- y) / 2 powi g \<le> \<bar>y\<bar> / 2 powi g"
    by (rule divide_right_mono, simp, simp)+
  ultimately have b: "y / 2 powi g \<le> real_of_int (2 ^ 53)" "- (y / 2 powi g) \<le> real_of_int (2 ^ 53)"
    by simp_all
  from roundHalfEven_le[OF b(1)] roundHalfEven_le[OF b(2)]
  have mb: "\<bar>m\<bar> \<le> 2 ^ 53" unfolding m_def by (simp add: roundHalfEven_minus)
  have av: "\<bar>v\<bar> = of_int \<bar>m\<bar> * 2 powi g" unfolding v by (simp add: abs_mult)
  have "lastPlace v \<le> g \<or> (\<bar>m\<bar> = 2 ^ 53 \<and> lastPlace v = g + 1)"
  proof (cases "\<bar>m\<bar> = 2 ^ 53")
    case True
    then have "\<bar>v\<bar> = 2 powi 53 * 2 powi g" unfolding av by simp
    also have "\<dots> = 2 powi (g + 53)" by (subst power_int_add) simp_all
    finally have e: "\<bar>v\<bar> = 2 powi (g + 53)" .
    have "\<lfloor>log 2 \<bar>v\<bar>\<rfloor> = g + 53"
      by (rule exponent_unique) (simp_all add: e power_int_two_less)
    moreover have "- 1074 \<le> g" by (simp add: g_def lastPlace_def)
    ultimately have "lastPlace v = g + 1" by (simp add: lastPlace_def)
    with True show ?thesis by simp
  next
    case False
    with mb have "\<bar>m\<bar> \<le> 2 ^ 53 - 1" by simp
    then have "real_of_int \<bar>m\<bar> \<le> real_of_int (2 ^ 53 - 1)" by (simp only: of_int_le_iff)
    then have "real_of_int \<bar>m\<bar> < 2 powi 53" by simp
    then have "\<bar>v\<bar> < 2 powi 53 * 2 powi g" unfolding av by simp
    also have "\<dots> = 2 powi (g + 53)" by (subst power_int_add) simp_all
    finally have e: "\<bar>v\<bar> < 2 powi (g + 53)" .
    have v0: "v \<noteq> 0" using m0 v by simp
    from exponent_bounds[OF v0] e have "(2::real) powi \<lfloor>log 2 \<bar>v\<bar>\<rfloor> < 2 powi (g + 53)" by linarith
    then have "\<lfloor>log 2 \<bar>v\<bar>\<rfloor> < g + 53" by (simp add: power_int_two_less)
    moreover have "- 1074 \<le> g" by (simp add: g_def lastPlace_def)
    ultimately have "lastPlace v \<le> g" by (simp add: lastPlace_def)
    then show ?thesis by simp
  qed
  then have "binary64 v = v"
  proof
    assume "lastPlace v \<le> g"
    from on_grid_double[OF v this] show ?thesis .
  next
    assume a: "\<bar>m\<bar> = 2 ^ 53 \<and> lastPlace v = g + 1"
    then have "m = 2 ^ 53 \<or> m = - (2 ^ 53)" by linarith
    then have "\<exists>j. m = 2 * j" by auto
    then obtain j where "m = 2 * j" by blast
    then have "v = of_int j * (2 * 2 powi g)" unfolding v by simp
    also have "2 * (2::real) powi g = 2 powi (g + 1)" by (subst power_int_add) simp_all
    finally have "v = of_int j * 2 powi (g + 1)" .
    from on_grid_double[OF this] a show ?thesis by simp
  qed
  then show ?thesis unfolding v_def .
qed



lemma quotient_above:
  assumes "binary64 p = p" "binary64 x = x" "0 < p" "p < x"
  shows "1 < binary64 (x / p)"
proof -
  define g where "g = lastPlace p"
  have gx: "g \<le> lastPlace x" unfolding g_def using lastPlace_mono[of p x] assms(3,4) by simp
  from double_on_grid[OF assms(1), of g] assms(3) obtain kp where kp: "p = of_int kp * 2 powi g"
    by (auto simp: g_def)
  from double_on_grid[OF assms(2) _ gx] assms(3,4) obtain kx where kx: "x = of_int kx * 2 powi g"
    by auto
  have "real_of_int kp * 2 powi g < real_of_int kx * 2 powi g" using assms(4) kp kx by simp
  then have "real_of_int kp < real_of_int kx" by simp
  then have "kp + 1 \<le> kx" by simp
  then have "real_of_int (kp + 1) \<le> real_of_int kx" by (simp only: of_int_le_iff)
  then have "real_of_int (kp + 1) * 2 powi g \<le> real_of_int kx * 2 powi g" by simp
  then have d: "p + 2 powi g \<le> x" unfolding kp kx by (simp add: algebra_simps)
  have "p < 2 powi (g + 53)" using below_next_binade[of p] assms(3) by (simp add: g_def)
  also have "\<dots> = 2 powi 53 * 2 powi g" by (subst power_int_add) simp_all
  finally have "p * 2 powi (- 53) < 2 powi g" by (simp add: power_int_minus_divide field_simps)
  with d have "p + p * 2 powi (- 53) < x" by linarith
  then have "p * (1 + 2 powi (- 53)) < x" by (simp add: algebra_simps)
  then have "1 + 2 powi (- 53) < x / p" using assms(3) by (simp add: pos_less_divide_eq mult.commute)
  then show ?thesis by (rule binary64_gt_one)
qed

lemma quotient_below:
  assumes "binary64 p = p" "binary64 x = x" "0 < p" "x < p"
  shows "binary64 (x / p) < 1"
proof (cases "0 < x")
  case False
  then have "x / p \<le> 0" using assms(3) by (simp add: divide_le_0_iff)
  from binary64_nonpos[OF this] show ?thesis by simp
next
  case True
  define g where "g = lastPlace p"
  have gx: "lastPlace x \<le> g" unfolding g_def using lastPlace_mono[of x p] assms(4) True by simp
  have pb: "p < 2 powi 54 * 2 powi (g - 1)"
  proof -
    have "p < 2 powi (g + 53)" using below_next_binade[of p] assms(3) by (simp add: g_def)
    also have "g + 53 = 54 + (g - 1)" by simp
    also have "(2::real) powi (54 + (g - 1)) = 2 powi 54 * 2 powi (g - 1)"
      by (rule power_int_add) simp
    finally show ?thesis .
  qed
  have "x / p < 1 - 2 powi (- 54)"
  proof (cases "g - 1 \<le> lastPlace x")
    case True
    from double_on_grid[OF assms(1), of "g - 1"] assms(3) obtain kp where
      kp: "p = of_int kp * 2 powi (g - 1)" by (auto simp: g_def)
    from double_on_grid[OF assms(2) _ True] \<open>0 < x\<close> obtain kx where
      kx: "x = of_int kx * 2 powi (g - 1)" by auto
    have "real_of_int kx * 2 powi (g - 1) < real_of_int kp * 2 powi (g - 1)"
      using assms(4) kp kx by simp
    then have "real_of_int kx < real_of_int kp" by simp
    then have "kx + 1 \<le> kp" by simp
    then have "real_of_int (kx + 1) \<le> real_of_int kp" by (simp only: of_int_le_iff)
    then have "real_of_int (kx + 1) * 2 powi (g - 1) \<le> real_of_int kp * 2 powi (g - 1)" by simp
    then have d: "x + 2 powi (g - 1) \<le> p" unfolding kp kx by (simp add: algebra_simps)
    from pb have "p * 2 powi (- 54) < 2 powi (g - 1)"
      by (simp add: power_int_minus_divide field_simps)
    with d have "x < p - p * 2 powi (- 54)" by linarith
    then have "x < (1 - 2 powi (- 54)) * p" by (simp add: algebra_simps)
    then show ?thesis using assms(3) by (simp add: pos_divide_less_eq)
  next
    case False
    then have l: "lastPlace x + 2 \<le> g" by simp
    have "- 1074 \<le> lastPlace x" by (simp add: lastPlace_def)
    with l have "- 1072 \<le> g" by simp
    then have "\<lfloor>log 2 \<bar>p\<bar>\<rfloor> = g + 52" unfolding g_def lastPlace_def by (simp add: max_def split: if_splits)
    with exponent_bounds[of p] assms(3) have lo: "2 powi (g + 52) \<le> p" by simp
    have "x < 2 powi (lastPlace x + 53)" using below_next_binade[of x] True by simp
    also have "\<dots> \<le> 2 powi (g + 51)" using l by (simp add: power_int_two_le)
    finally have "2 * x < 2 * 2 powi (g + 51)" by simp
    also have "2 * (2::real) powi (g + 51) = 2 powi (g + 52)"
      using power_int_add[of "2::real" 1 "g + 51"] by (simp add: add.commute)
    finally have "2 * x < p" using lo by linarith
    then have "x / p < 1 / 2" using assms(3) by (simp add: pos_divide_less_eq)
    moreover have "(1::real) / 2 \<le> 1 - 2 powi (- 54)" by (simp add: power_int_minus_divide)
    ultimately show ?thesis by linarith
  qed
  then show ?thesis by (rule binary64_lt_one)
qed


lemma binary64_int: "\<bar>k\<bar> \<le> 2 ^ 53 \<Longrightarrow> binary64 (of_int k) = of_int k"
proof (cases "k = 0")
  case True
  then show ?thesis by (simp add: binary64_zero)
next
  case False
  assume k: "\<bar>k\<bar> \<le> 2 ^ 53"
  define x where "x = real_of_int k"
  have x0: "x \<noteq> 0" using False by (simp add: x_def)
  have "\<bar>x\<bar> = real_of_int \<bar>k\<bar>" by (simp add: x_def)
  also have "\<dots> \<le> real_of_int (2 ^ 53)" using k by (simp only: of_int_le_iff)
  finally have "\<bar>x\<bar> \<le> 2 powi 53" by simp
  with exponent_bounds[OF x0] have "(2::real) powi \<lfloor>log 2 \<bar>x\<bar>\<rfloor> \<le> 2 powi 53" by linarith
  then have "\<lfloor>log 2 \<bar>x\<bar>\<rfloor> \<le> 53" by (simp only: power_int_two_le)
  then have l: "lastPlace x \<le> 1" by (simp add: lastPlace_def)
  show ?thesis
  proof (cases "lastPlace x \<le> 0")
    case True
    have "x = of_int k * 2 powi 0" by (simp add: x_def)
    from on_grid_double[OF this True] show ?thesis by (simp add: x_def)
  next
    case False
    with l have l1: "lastPlace x = 1" by simp
    then have "\<lfloor>log 2 \<bar>x\<bar>\<rfloor> = 53" by (simp add: lastPlace_def max_def split: if_splits)
    with exponent_bounds[OF x0] have "2 powi 53 \<le> \<bar>x\<bar>" by simp
    then have "real_of_int (2 ^ 53) \<le> real_of_int \<bar>k\<bar>" by (simp add: x_def)
    then have "2 ^ 53 \<le> \<bar>k\<bar>" by (simp only: of_int_le_iff)
    with k have "\<bar>k\<bar> = 2 ^ 53" by simp
    then have "k = 2 ^ 53 \<or> k = - (2 ^ 53)" by linarith
    then have "\<exists>j. k = 2 * j" by auto
    then obtain j where "k = 2 * j" by blast
    then have "x = of_int j * 2 powi 1" by (simp add: x_def)
    from on_grid_double[OF this] l1 show ?thesis by (simp add: x_def)
  qed
qed

lemma binary64_numeral: "numeral n \<le> (2::int) ^ 53 \<Longrightarrow> binary64 (numeral n) = numeral n"
  using binary64_int[of "numeral n"] by simp

subsection \<open>Some doubles\<close>

lemma double_0_1: "binary64 (1 / 10) = 3602879701896397 / 36028797018963968"
  by (subst binary64_at[of "- 4"]) (simp_all add: roundHalfEven_def Let_def power_int_minus_divide)

lemma double_0_2: "binary64 (1 / 5) = 3602879701896397 / 18014398509481984"
  by (subst binary64_at[of "- 3"]) (simp_all add: roundHalfEven_def Let_def power_int_minus_divide)

lemma double_0_3: "binary64 (3 / 10) = 5404319552844595 / 18014398509481984"
  by (subst binary64_at[of "- 2"]) (simp_all add: roundHalfEven_def Let_def power_int_minus_divide)

lemma double_0_1_plus_0_2: "binary64 (10808639105689191 / 36028797018963968) = 1351079888211149 / 4503599627370496"
  by (subst binary64_at[of "- 2"]) (simp_all add: roundHalfEven_def Let_def power_int_minus_divide)

lemma double_0_1_plus_0_2_plus_0_3: "binary64 (10808639105689191 / 18014398509481984) = 1351079888211149 / 2251799813685248"
  by (subst binary64_at[of "- 1"]) (simp_all add: roundHalfEven_def Let_def power_int_minus_divide)

lemma double_half: "binary64 (1 / 2) = 1 / 2"
  by (subst binary64_at[of "- 1"]) (simp_all add: roundHalfEven_def Let_def power_int_minus_divide)

lemma double_three_quarters: "binary64 (3 / 4) = 3 / 4"
  by (subst binary64_at[of "- 1"]) (simp_all add: roundHalfEven_def Let_def power_int_minus_divide)

lemma double_0_1_plus_0_5: "binary64 (21617278211378381 / 36028797018963968) = 5404319552844595 / 9007199254740992"
  by (subst binary64_at[of "- 1"]) (simp_all add: roundHalfEven_def Let_def power_int_minus_divide)

lemma double_807_84: "binary64 (20196 / 25) = 7105835787060511 / 8796093022208"
  by (subst binary64_at[of "9"]) (simp_all add: roundHalfEven_def Let_def power_int_minus_divide)

lemma double_236_93: "binary64 (23693 / 100) = 4168116639503483 / 17592186044416"
  by (subst binary64_at[of "7"]) (simp_all add: roundHalfEven_def Let_def power_int_minus_divide)

lemma double_865_61: "binary64 (86561 / 100) = 7613986080953467 / 8796093022208"
  by (subst binary64_at[of "9"]) (simp_all add: roundHalfEven_def Let_def power_int_minus_divide)

lemma double_807_84_minus_236_93: "binary64 (10043554934617539 / 17592186044416) = 2510888733654385 / 4398046511104"
  by (subst binary64_at[of "9"]) (simp_all add: roundHalfEven_def Let_def power_int_minus_divide)

lemma double_236_93_stays: "binary64 (4168116639503483 / 17592186044416) = 4168116639503483 / 17592186044416"
  by (subst binary64_at[of "7"]) (simp_all add: roundHalfEven_def Let_def power_int_minus_divide)

lemma double_570_91_stays: "binary64 (2510888733654385 / 4398046511104) = 2510888733654385 / 4398046511104"
  by (subst binary64_at[of "9"]) (simp_all add: roundHalfEven_def Let_def power_int_minus_divide)

lemma rate_15_percent: "binary64 (3 / 20) = 5404319552844595 / 36028797018963968"
  by (subst binary64_at[of "- 3"]) (simp_all add: roundHalfEven_def Let_def power_int_minus_divide)

lemma rate_15_monthly: "binary64 (5404319552844595 / 432345564227567616) = 7205759403792793 / 576460752303423488"
  by (subst binary64_at[of "- 7"]) (simp_all add: roundHalfEven_def Let_def power_int_minus_divide)

lemma interest_1200_at_15: "binary64 (540431955284459475 / 36028797018963968) = 8444249301319679 / 562949953421312"
  by (subst binary64_at[of "3"]) (simp_all add: roundHalfEven_def Let_def power_int_minus_divide)

lemma rate_36_percent: "binary64 (9 / 25) = 3242591731706757 / 9007199254740992"
  by (subst binary64_at[of "- 2"]) (simp_all add: roundHalfEven_def Let_def power_int_minus_divide)

lemma rate_36_monthly: "binary64 (1080863910568919 / 36028797018963968) = 1080863910568919 / 36028797018963968"
  by (subst binary64_at[of "- 6"]) (simp_all add: roundHalfEven_def Let_def power_int_minus_divide)

lemma interest_10000_at_36: "binary64 (675539944105574375 / 2251799813685248) = 300"
  by (subst binary64_at[of "8"]) (simp_all add: roundHalfEven_def Let_def power_int_minus_divide)

lemma roundedLog_positive:
  assumes "1 + 2 powi (- 52) \<le> y"
  shows "0 < roundedLog y"
proof -
  have "(2::real) powi (- 53) \<le> 2 powi (- 52) - (2 powi (- 52))\<^sup>2"
    by (simp add: power_int_minus_divide power2_eq_square)
  also have "\<dots> \<le> ln (1 + 2 powi (- 52))"
    by (rule ln_one_plus_pos_lower_bound) (simp_all add: power_int_minus_divide)
  also have "\<dots> \<le> ln y" using assms by simp
  finally have "2 powi (- 53) \<le> ln y" .
  from binary64_lower[OF this] have "2 powi (- 53) \<le> roundedLog y" by (simp add: roundedLog_def)
  then show ?thesis using power_int_two_pos[of "- 53"] by linarith
qed

subsection \<open>Evaluation of months\<close>

lemmas month_eval =
  getPreviousMonth_def Number_def digitValue_def padStart2_def digitChar_def String.simps

lemma previous_of_march: "getPreviousMonth ''2024-03'' = ''2024-02''"
  by (simp add: month_eval)


lemma previous_of_january: "getPreviousMonth ''2024-01'' = ''2023-12''"
  by (simp add: month_eval)

lemma previous_of_december: "getPreviousMonth ''2023-12'' = ''2023-11''"
  by (simp add: month_eval)

text \<open>
  For a month written as a year from 100 on, a dash and a month from 01 to 12,
  \<open>getPreviousMonth\<close> is the calendar month before it.
\<close>

lemma below_ten: "(n::nat) < 10 \<Longrightarrow> n \<in> {0, 1, 2, 3, 4, 5, 6, 7, 8, 9}"
  by auto

lemma digitValue_digitChar: "n < 10 \<Longrightarrow> digitValue (digitChar n) = Some n"
  by (drule below_ten) (auto simp: digitValue_def digitChar_def)

lemma digitChar_not_dash: "n < 10 \<Longrightarrow> digitChar n \<noteq> CHR ''-''"
  by (drule below_ten) (auto simp: digitChar_def)

lemma digitsValue_snoc:
  "digitsValue acc (xs @ [c]) =
     (case digitsValue acc xs of
        None \<Rightarrow> None
      | Some v \<Rightarrow> (case digitValue c of None \<Rightarrow> None | Some k \<Rightarrow> Some (10 * v + k)))"
  by (induction xs arbitrary: acc) (auto split: option.splits)

lemma Number_String: "Number (String n) = Some n"
proof (induction n rule: String.induct)
  case (1 n)
  show ?case
  proof (cases "n < 10")
    case True
    then show ?thesis
      by (simp add: Number_def String.simps[of n] digitValue_digitChar)
  next
    case False
    with 1 have "digitsValue 0 (String (n div 10)) = Some (n div 10)"
      by (simp add: Number_def)
    with False show ?thesis
      by (simp add: Number_def String.simps[of n] digitsValue_snoc digitValue_digitChar)
  qed
qed

lemma String_no_dash: "CHR ''-'' \<notin> set (String n)"
proof (induction n rule: String.induct)
  case (1 n)
  show ?case
  proof (cases "n < 10")
    case True
    then show ?thesis using digitChar_not_dash[of n] by (simp add: String.simps[of n])
  next
    case False
    with 1 digitChar_not_dash[of "n mod 10"] show ?thesis
      by (simp add: String.simps[of n])
  qed
qed

lemma String_nonempty: "String n \<noteq> []"
  by (subst String.simps) simp

lemma length_String_small: "n < 10 \<Longrightarrow> length (String n) = 1"
  by (simp add: String.simps[of n])

lemma length_String_large: "10 \<le> n \<Longrightarrow> 2 \<le> length (String n)"
  using String_nonempty[of "n div 10"]
  by (simp add: String.simps[of n] Suc_le_eq)

lemma split_no_sep: "sep \<notin> set xs \<Longrightarrow> split sep xs = [xs]"
  by (induction xs) auto

lemma split_at_sep:
  "sep \<notin> set xs \<Longrightarrow> sep \<notin> set ys \<Longrightarrow> split sep (xs @ sep # ys) = [xs, ys]"
  by (induction xs) (auto simp: split_no_sep)

lemma padStart2_no_dash: "CHR ''-'' \<notin> set (padStart2 (String n))"
  using String_no_dash[of n] by (auto simp: padStart2_def)

lemma Number_padStart2: "Number (padStart2 (String n)) = Some n"
proof (cases "n < 10")
  case True
  then have "padStart2 (String n) = CHR ''0'' # String n"
    by (simp add: padStart2_def length_String_small)
  moreover have "digitValue (CHR ''0'') = Some 0" by (simp add: digitValue_def)
  ultimately show ?thesis using Number_String[of n] by (simp add: Number_def)
next
  case False
  then have "padStart2 (String n) = String n"
    using length_String_large[of n] by (simp add: padStart2_def)
  then show ?thesis by (simp add: Number_String)
qed

lemma div_mod_twelve:
  "0 \<le> r \<Longrightarrow> r < 12 \<Longrightarrow> (q * 12 + r) div 12 = (q::int) \<and> (q * 12 + r) mod 12 = r"
  by simp

lemma getPreviousMonth_calendar:
  assumes "100 \<le> year" "year \<le> 275759" "1 \<le> monthNum" "monthNum \<le> 12"
  shows "getPreviousMonth (monthText year monthNum) =
     (if monthNum = 1 then monthText (year - 1) 12 else monthText year (monthNum - 1))"
proof -
  have s: "split (CHR ''-'') (monthText year monthNum) = [String year, padStart2 (String monthNum)]"
    unfolding monthText_def using split_at_sep[OF String_no_dash padStart2_no_dash] by simp
  have y: "\<not> year \<le> 99" using assms(1) by simp
  have d: "\<not> 275760 * 12 + 8 < int year * 12 + (int monthNum - 1)"
    using assms(2,4) by simp
  have e: "getPreviousMonth (monthText year monthNum) =
      String (nat ((int year * 12 + (int monthNum - 1) - 1) div 12)) @ ''-'' @
        padStart2 (String (nat ((int year * 12 + (int monthNum - 1) - 1) mod 12 + 1)))"
    unfolding getPreviousMonth_def s using y d
    by (simp add: Number_String Number_padStart2 Let_def del: of_nat_mult of_nat_add)
  show ?thesis
  proof (cases "monthNum = 1")
    case True
    have eq: "int year * 12 + (int monthNum - 1) - 1 = (int year - 1) * 12 + 11"
      using True by simp
    have dm: "((int year - 1) * 12 + 11) div 12 = int year - 1 \<and>
        ((int year - 1) * 12 + 11) mod 12 = 11"
      by (rule div_mod_twelve) simp_all
    have "(int year * 12 + (int monthNum - 1) - 1) div 12 = int year - 1"
      "(int year * 12 + (int monthNum - 1) - 1) mod 12 = 11"
      unfolding eq using dm by blast+
    moreover have "nat (int year - 1) = year - 1" by simp
    ultimately show ?thesis using True unfolding e by (simp add: monthText_def)
  next
    case False
    then have r: "0 \<le> int monthNum - 2" "int monthNum - 2 < 12"
      using assms(3,4) by simp_all
    have eq: "int year * 12 + (int monthNum - 1) - 1 = int year * 12 + (int monthNum - 2)"
      by simp
    note dm = div_mod_twelve[OF r, of "int year"]
    have "(int year * 12 + (int monthNum - 1) - 1) div 12 = int year"
      "(int year * 12 + (int monthNum - 1) - 1) mod 12 = int monthNum - 2"
      unfolding eq using dm by blast+
    moreover have "nat (int monthNum - 2 + 1) = monthNum - 1" using assms(3) by simp
    ultimately show ?thesis using False unfolding e by (simp add: monthText_def)
  qed
qed

lemma monthText_example: "monthText 2024 3 = ''2024-03''"
  by (simp add: monthText_def String.simps digitChar_def padStart2_def)

subsection \<open>Sums\<close>





subsection \<open>The balance of an envelope\<close>

lemma staleLedger_reached:
  "fst (assignMoney t2 (fst (assignMoney t1 zeroLedger ''rent'' ''2024-01'' 5))
          ''rent'' ''2023-12'' 7) = staleLedger"
  by (simp add: assignMoney_def zeroLedger_def staleLedger_def emptyLedger_def
      calculateCategoryAvailable_def getCategoryActivity_def previous_of_january
      previous_of_december binary64_numeral)



subsection \<open>Money available to budget\<close>












subsection \<open>Finding and replacing records\<close>

lemma findIndex_None: "findIndex P xs = None \<longleftrightarrow> find P xs = None"
  by (induction xs) auto

lemma findIndex_Some:
  "findIndex P xs = Some i \<Longrightarrow> i < length xs \<and> P (xs ! i) \<and> find P xs = Some (xs ! i)"
  by (induction xs arbitrary: i) (auto split: if_splits)

lemma find_update_first:
  "findIndex P xs = Some i \<Longrightarrow> P y \<Longrightarrow> find P (xs[i := y]) = Some y"
  by (induction xs arbitrary: i) (auto split: if_splits)

lemma findIndex_update_first:
  "findIndex P xs = Some i \<Longrightarrow> P y \<Longrightarrow> findIndex P (xs[i := y]) = Some i"
  by (induction xs arbitrary: i) (auto split: if_splits)

lemma find_update_other:
  "i < length xs \<Longrightarrow> \<not> P (xs ! i) \<Longrightarrow> \<not> P y \<Longrightarrow> find P (xs[i := y]) = find P xs"
  by (induction xs arbitrary: i) (auto split: nat.splits)

lemma find_append_other: "\<not> P y \<Longrightarrow> find P (xs @ [y]) = find P xs"
  by (induction xs) auto

lemma find_append_new: "find P xs = None \<Longrightarrow> P y \<Longrightarrow> find P (xs @ [y]) = Some y"
  by (induction xs) (auto split: if_splits)

lemma findIndex_append_new: "findIndex P xs = None \<Longrightarrow> P y \<Longrightarrow> findIndex P (xs @ [y]) = Some (length xs)"
  by (induction xs) (auto split: if_splits)

lemma assignMoney_existing:
  assumes "findIndex (\<lambda>b. bud_categoryId b = c \<and> bud_month b = m) (budgets d) = Some i"
  shows "\<exists>v. assignMoney t d c m a =
     (d\<lparr>budgets := (budgets d)[i := (budgets d ! i)
          \<lparr>bud_assigned := binary64 (bud_assigned (budgets d ! i) + a), bud_available := v\<rparr>]\<rparr>, i)"
proof -
  from findIndex_Some[OF assms] have i: "i < length (budgets d)" by simp
  show ?thesis
    using i by (simp add: assignMoney_def assms Let_def del: ex_simps) blast
qed

lemma assignMoney_new:
  assumes "findIndex (\<lambda>b. bud_categoryId b = c \<and> bud_month b = m) (budgets d) = None"
  shows "\<exists>v. assignMoney t d c m a =
     (d\<lparr>budgets := budgets d @
          [\<lparr>bud_id = ''budget-'' @ String t @ ''-'' @ c, bud_categoryId = c, bud_month = m,
            bud_assigned = a, bud_activity = getCategoryActivity d c m, bud_available = v\<rparr>]\<rparr>,
      length (budgets d))"
  by (simp add: assignMoney_def assms Let_def) blast

lemma assignMoney_cases:
  obtains (existing) i v where
      "findIndex (\<lambda>b. bud_categoryId b = c \<and> bud_month b = m) (budgets d) = Some i"
      "i < length (budgets d)"
      "budgetKey (budgets d ! i) = (c, m)"
      "assignMoney t d c m a =
         (d\<lparr>budgets := (budgets d)[i := (budgets d ! i)
            \<lparr>bud_assigned := binary64 (bud_assigned (budgets d ! i) + a), bud_available := v\<rparr>]\<rparr>, i)"
  | (new) v where
      "find (\<lambda>b. bud_categoryId b = c \<and> bud_month b = m) (budgets d) = None"
      "assignMoney t d c m a =
         (d\<lparr>budgets := budgets d @
            [\<lparr>bud_id = ''budget-'' @ String t @ ''-'' @ c, bud_categoryId = c, bud_month = m,
              bud_assigned = a, bud_activity = getCategoryActivity d c m,
              bud_available = v\<rparr>]\<rparr>,
          length (budgets d))"
proof (cases "findIndex (\<lambda>b. bud_categoryId b = c \<and> bud_month b = m) (budgets d)")
  case None
  with assignMoney_new[OF None, of t a] new show ?thesis
    by (auto simp: findIndex_None)
next
  case (Some i)
  with assignMoney_existing[OF Some, of t a] findIndex_Some[OF Some] existing show ?thesis
    by (auto simp: budgetKey_def)
qed

lemma assignMoney_frame:
  "accounts (fst (assignMoney t d c m a)) = accounts d \<and>
   categories (fst (assignMoney t d c m a)) = categories d \<and>
   transactions (fst (assignMoney t d c m a)) = transactions d \<and>
   goals (fst (assignMoney t d c m a)) = goals d"
  by (cases rule: assignMoney_cases[of c m d t a]) simp_all

lemma find_None_key:
  "find (\<lambda>b. bud_categoryId b = c \<and> bud_month b = m) xs = None
     \<longleftrightarrow> (c, m) \<notin> set (map budgetKey xs)"
  by (induction xs) (auto simp: budgetKey_def)

lemma assignMoney_keys:
  "map budgetKey (budgets (fst (assignMoney t d c m a))) =
     (if (c, m) \<in> set (map budgetKey (budgets d)) then map budgetKey (budgets d)
      else map budgetKey (budgets d) @ [(c, m)])"
proof (cases rule: assignMoney_cases[of c m d t a])
  case (existing i v)
  have "(c, m) \<in> set (map budgetKey (budgets d))"
    using existing(2,3) by (metis length_map nth_map nth_mem)
  moreover have "map budgetKey ((budgets d)[i := (budgets d ! i)
            \<lparr>bud_assigned := binary64 (bud_assigned (budgets d ! i) + a), bud_available := v\<rparr>])
       = map budgetKey (budgets d)"
    using existing(2) by (simp add: map_update budgetKey_def list_update_same_conv)
  ultimately show ?thesis using existing(4) by simp
next
  case (new v)
  then show ?thesis by (simp add: find_None_key budgetKey_def)
qed

lemma assignMoney_unique:
  "uniqueBudgets d \<Longrightarrow> uniqueBudgets (fst (assignMoney t d c m a))"
  by (simp add: uniqueBudgets_def assignMoney_keys)

lemma assignMoney_assignedField:
  "assignedField (fst (assignMoney t d c m a)) c m =
     (if find (\<lambda>b. bud_categoryId b = c \<and> bud_month b = m) (budgets d) = None then a
      else binary64 (assignedField d c m + a))"
proof (cases "findIndex (\<lambda>b. bud_categoryId b = c \<and> bud_month b = m) (budgets d)")
  case None
  from assignMoney_new[OF None] obtain v where
    "assignMoney t d c m a =
     (d\<lparr>budgets := budgets d @
          [\<lparr>bud_id = ''budget-'' @ String t @ ''-'' @ c, bud_categoryId = c, bud_month = m,
            bud_assigned = a, bud_activity = getCategoryActivity d c m, bud_available = v\<rparr>]\<rparr>,
      length (budgets d))" by blast
  moreover have "find (\<lambda>b. bud_categoryId b = c \<and> bud_month b = m) (budgets d) = None"
    using None by (simp add: findIndex_None)
  ultimately show ?thesis
    by (simp add: assignedField_def find_append_new)
next
  case (Some i)
  from assignMoney_existing[OF Some] obtain v where
    "assignMoney t d c m a =
     (d\<lparr>budgets := (budgets d)[i := (budgets d ! i)
          \<lparr>bud_assigned := binary64 (bud_assigned (budgets d ! i) + a), bud_available := v\<rparr>]\<rparr>, i)"
    by blast
  moreover from findIndex_Some[OF Some] have
    "bud_categoryId (budgets d ! i) = c \<and> bud_month (budgets d ! i) = m"
    "find (\<lambda>b. bud_categoryId b = c \<and> bud_month b = m) (budgets d) = Some (budgets d ! i)"
    by simp_all
  ultimately show ?thesis
    by (simp add: assignedField_def find_update_first[OF Some])
qed

lemma assignMoney_returned:
  "bud_assigned (returnedBudget (assignMoney t d c m a)) =
     (if find (\<lambda>b. bud_categoryId b = c \<and> bud_month b = m) (budgets d) = None then a
      else binary64 (assignedField d c m + a))"
proof (cases "findIndex (\<lambda>b. bud_categoryId b = c \<and> bud_month b = m) (budgets d)")
  case None
  from assignMoney_new[OF None, of t a] obtain v where
    "assignMoney t d c m a =
     (d\<lparr>budgets := budgets d @
          [\<lparr>bud_id = ''budget-'' @ String t @ ''-'' @ c, bud_categoryId = c, bud_month = m,
            bud_assigned = a, bud_activity = getCategoryActivity d c m, bud_available = v\<rparr>]\<rparr>,
      length (budgets d))" by blast
  moreover have "find (\<lambda>b. bud_categoryId b = c \<and> bud_month b = m) (budgets d) = None"
    using None by (simp add: findIndex_None)
  ultimately show ?thesis
    by (simp add: assignedField_def returnedBudget_def)
next
  case (Some i)
  from assignMoney_existing[OF Some, of t a] obtain v where
    "assignMoney t d c m a =
     (d\<lparr>budgets := (budgets d)[i := (budgets d ! i)
          \<lparr>bud_assigned := binary64 (bud_assigned (budgets d ! i) + a), bud_available := v\<rparr>]\<rparr>, i)"
    by blast
  moreover from findIndex_Some[OF Some] have
    "i < length (budgets d)"
    "find (\<lambda>b. bud_categoryId b = c \<and> bud_month b = m) (budgets d) = Some (budgets d ! i)"
    by simp_all
  ultimately show ?thesis
    by (simp add: assignedField_def returnedBudget_def)
qed

lemma assignMoney_record:
  "find (\<lambda>b. bud_categoryId b = c \<and> bud_month b = m) (budgets (fst (assignMoney t d c m a))) \<noteq> None"
proof -
  have "(c, m) \<in> set (map budgetKey (budgets (fst (assignMoney t d c m a))))"
    unfolding assignMoney_keys by simp
  then show ?thesis by (simp only: find_None_key not_not)
qed

lemma assignMoney_twice:
  "assignedField (fst (assignMoney t2 (fst (assignMoney t1 d c m a)) c m b)) c m =
     binary64 (assignedField (fst (assignMoney t1 d c m a)) c m + b)"
proof -
  have "find (\<lambda>b. bud_categoryId b = c \<and> bud_month b = m) (budgets (fst (assignMoney t1 d c m a))) \<noteq> None"
    by (rule assignMoney_record)
  then show ?thesis by (simp only: assignMoney_assignedField[of t2] if_False)
qed

subsection \<open>Assigning twice\<close>

text \<open>
  C7, as the claim states it, fails: on a Budget record whose \<open>assigned\<close> is the double
  \<open>0.1\<close>, \<open>assignMoney\<close> with the double \<open>0.2\<close> and then with the double \<open>0.3\<close> leaves
  \<open>0.6000000000000001\<close>, and one call with their sum, which is the double \<open>0.5\<close>, leaves
  \<open>0.6\<close> (each result written as the fraction that the double denotes).
\<close>

theorem assignMoney_additive_counterexample:
  "assignedField tenthLedger ''rent'' ''2024-01'' = binary64 (1 / 10) \<and>
   binary64 (1 / 5) + binary64 (3 / 10) = 1 / 2 \<and>
   binary64 (binary64 (1 / 5) + binary64 (3 / 10)) = 1 / 2 \<and>
   assignedField
     (fst (assignMoney 2 (fst (assignMoney 1 tenthLedger ''rent'' ''2024-01'' (binary64 (1 / 5))))
             ''rent'' ''2024-01'' (binary64 (3 / 10)))) ''rent'' ''2024-01''
     = 1351079888211149 / 2251799813685248 \<and>
   assignedField
     (fst (assignMoney 3 tenthLedger ''rent'' ''2024-01'' (binary64 (binary64 (1 / 5) + binary64 (3 / 10)))))
     ''rent'' ''2024-01''
     = 5404319552844595 / 9007199254740992 \<and>
   assignedField
     (fst (assignMoney 2 (fst (assignMoney 1 tenthLedger ''rent'' ''2024-01'' (binary64 (1 / 5))))
             ''rent'' ''2024-01'' (binary64 (3 / 10)))) ''rent'' ''2024-01''
     \<noteq> assignedField
         (fst (assignMoney 3 tenthLedger ''rent'' ''2024-01''
                 (binary64 (binary64 (1 / 5) + binary64 (3 / 10)))))
         ''rent'' ''2024-01''"
proof -
  have f: "find (\<lambda>b. bud_categoryId b = ''rent'' \<and> bud_month b = ''2024-01'') (budgets tenthLedger) \<noteq> None"
    by (simp add: tenthLedger_def emptyLedger_def)
  have x: "assignedField tenthLedger ''rent'' ''2024-01'' = binary64 (1 / 10)"
    by (simp add: assignedField_def tenthLedger_def emptyLedger_def)
  have h: "binary64 (1 / 5) + binary64 (3 / 10) = 1 / 2"
    by (simp add: double_0_2 double_0_3)
  have two: "assignedField
     (fst (assignMoney 2 (fst (assignMoney 1 tenthLedger ''rent'' ''2024-01'' (binary64 (1 / 5))))
             ''rent'' ''2024-01'' (binary64 (3 / 10)))) ''rent'' ''2024-01''
     = 1351079888211149 / 2251799813685248"
    using f
    by (simp only: assignMoney_twice, simp only: assignMoney_assignedField x if_False)
       (simp add: double_0_1 double_0_2 double_0_3 double_0_1_plus_0_2 double_0_1_plus_0_2_plus_0_3)
  have one: "assignedField
     (fst (assignMoney 3 tenthLedger ''rent'' ''2024-01'' (binary64 (binary64 (1 / 5) + binary64 (3 / 10)))))
     ''rent'' ''2024-01''
     = 5404319552844595 / 9007199254740992"
    using f
    by (simp only: assignMoney_assignedField x h if_False)
       (simp add: double_0_1 double_half double_0_1_plus_0_5)
  have h2: "binary64 (binary64 (1 / 5) + binary64 (3 / 10)) = 1 / 2"
    by (simp only: h double_half)
  have ne: "(1351079888211149 / 2251799813685248::real) \<noteq> 5404319552844595 / 9007199254740992"
    by simp
  show ?thesis
    by (intro conjI x h h2 two one) (simp only: two one ne not_False_eq_True)
qed

lemma assignMoney_exact:
  assumes "find (\<lambda>b. bud_categoryId b = c \<and> bud_month b = m) (budgets d) = None \<or>
           (binary64 (assignedField d c m + a) = assignedField d c m + a \<and> binary64 (a + b) = a + b)"
  shows "binary64 (assignedField (fst (assignMoney t1 d c m a)) c m + b)
           = assignedField (fst (assignMoney t3 d c m (binary64 (a + b)))) c m"
proof (cases "find (\<lambda>b. bud_categoryId b = c \<and> bud_month b = m) (budgets d) = None")
  case True
  then show ?thesis by (simp add: assignMoney_assignedField)
next
  case False
  with assms have e: "binary64 (assignedField d c m + a) = assignedField d c m + a"
    "binary64 (a + b) = a + b" by simp_all
  have "assignedField d c m + a + b = assignedField d c m + (a + b)" by simp
  with False show ?thesis by (simp only: assignMoney_assignedField e if_False)
qed

lemma assignMoney_whole:
  assumes "find (\<lambda>b. bud_categoryId b = c \<and> bud_month b = m) (budgets d) = None \<or>
           (\<exists>k. assignedField d c m = of_int k \<and> \<bar>k\<bar> \<le> 2 ^ 52)"
  shows "binary64 (assignedField (fst (assignMoney t1 d c m 10)) c m + 10)
           = assignedField (fst (assignMoney t3 d c m 20)) c m"
proof (cases "find (\<lambda>b. bud_categoryId b = c \<and> bud_month b = m) (budgets d) = None")
  case True
  then show ?thesis by (simp add: assignMoney_assignedField binary64_numeral)
next
  case False
  with assms obtain k where k: "assignedField d c m = of_int k" "\<bar>k\<bar> \<le> 2 ^ 52" by blast
  have 1: "binary64 (real_of_int k + 10) = real_of_int k + 10"
    using binary64_int[of "k + 10"] k(2) by simp
  have 2: "binary64 (real_of_int k + 20) = real_of_int k + 20"
    using binary64_int[of "k + 20"] k(2) by simp
  have "real_of_int k + 10 + 10 = real_of_int k + 20" by simp
  with False show ?thesis by (simp only: assignMoney_assignedField k(1) 1 2 if_False)
qed

text \<open>
  C7, amended: \<open>assignMoney\<close> with the amount \<open>a\<close> leaves a Budget record of the category
  and month whose \<open>assigned\<close>, in the ledger and in the record returned, is \<open>a\<close> when
  there was no record, and otherwise the double sum of the old \<open>assigned\<close> and \<open>a\<close>. A
  second call with \<open>b\<close> leaves the same \<open>assigned\<close> as a single call with the double sum
  of \<open>a\<close> and \<open>b\<close> when there was no record, and on an existing record when the sum of
  the old \<open>assigned\<close> and \<open>a\<close> and the sum of \<open>a\<close> and \<open>b\<close> are doubles themselves (no
  rounding occurs). Two calls with 10 leave what one call with 20 leaves when there was
  no record or the old \<open>assigned\<close> is a whole number of at most \<open>2 ^ 52\<close> in size.
\<close>

theorem assignMoney_additive_when_exact:
  "find (\<lambda>b. bud_categoryId b = c \<and> bud_month b = m) (budgets (fst (assignMoney t1 d c m a))) \<noteq> None \<and>
   assignedField (fst (assignMoney t1 d c m a)) c m =
     (if find (\<lambda>b. bud_categoryId b = c \<and> bud_month b = m) (budgets d) = None then a
      else binary64 (assignedField d c m + a)) \<and>
   bud_assigned (returnedBudget (assignMoney t1 d c m a))
     = assignedField (fst (assignMoney t1 d c m a)) c m \<and>
   (find (\<lambda>b. bud_categoryId b = c \<and> bud_month b = m) (budgets d) = None \<or>
    (binary64 (assignedField d c m + a) = assignedField d c m + a \<and> binary64 (a + b) = a + b) \<longrightarrow>
      assignedField (fst (assignMoney t2 (fst (assignMoney t1 d c m a)) c m b)) c m
        = assignedField (fst (assignMoney t3 d c m (binary64 (a + b)))) c m \<and>
      bud_assigned (returnedBudget (assignMoney t2 (fst (assignMoney t1 d c m a)) c m b))
        = bud_assigned (returnedBudget (assignMoney t3 d c m (binary64 (a + b))))) \<and>
   (find (\<lambda>b. bud_categoryId b = c \<and> bud_month b = m) (budgets d) = None \<or>
    (\<exists>k. assignedField d c m = of_int k \<and> \<bar>k\<bar> \<le> 2 ^ 52) \<longrightarrow>
      assignedField (fst (assignMoney t2 (fst (assignMoney t1 d c m 10)) c m 10)) c m
        = assignedField (fst (assignMoney t3 d c m 20)) c m)"
proof -
  have r: "bud_assigned (returnedBudget (assignMoney t d' c m x)) = assignedField (fst (assignMoney t d' c m x)) c m"
    for t d' x
    by (simp only: assignMoney_returned assignMoney_assignedField)
  have 1: "find (\<lambda>b. bud_categoryId b = c \<and> bud_month b = m) (budgets (fst (assignMoney t1 d c m a))) \<noteq> None"
    by (rule assignMoney_record)
  note 2 = assignMoney_assignedField[of t1 d c m a]
  have 4: "assignedField (fst (assignMoney t2 (fst (assignMoney t1 d c m a)) c m b)) c m
        = assignedField (fst (assignMoney t3 d c m (binary64 (a + b)))) c m \<and>
      bud_assigned (returnedBudget (assignMoney t2 (fst (assignMoney t1 d c m a)) c m b))
        = bud_assigned (returnedBudget (assignMoney t3 d c m (binary64 (a + b))))"
    if "find (\<lambda>b. bud_categoryId b = c \<and> bud_month b = m) (budgets d) = None \<or>
      (binary64 (assignedField d c m + a) = assignedField d c m + a \<and> binary64 (a + b) = a + b)"
    unfolding r assignMoney_twice using assignMoney_exact[OF that] by simp
  have 5: "assignedField (fst (assignMoney t2 (fst (assignMoney t1 d c m 10)) c m 10)) c m
        = assignedField (fst (assignMoney t3 d c m 20)) c m"
    if "find (\<lambda>b. bud_categoryId b = c \<and> bud_month b = m) (budgets d) = None \<or>
      (\<exists>k. assignedField d c m = of_int k \<and> \<bar>k\<bar> \<le> 2 ^ 52)"
    unfolding assignMoney_twice using assignMoney_whole[OF that] by simp
  show ?thesis
    by (intro conjI impI 1 2 r conjunct1[OF 4] conjunct2[OF 4] 5)
qed

theorem assignMoney_additive_when_exact_witness:
  "find (\<lambda>b. bud_categoryId b = ''rent'' \<and> bud_month b = ''2024-01'') (budgets zeroLedger) \<noteq> None \<and>
   assignedField zeroLedger ''rent'' ''2024-01'' = of_int 0 \<and>
   assignedField (fst (assignMoney 2 (fst (assignMoney 1 zeroLedger ''rent'' ''2024-01'' 10))
                         ''rent'' ''2024-01'' 10)) ''rent'' ''2024-01'' = 20 \<and>
   assignedField (fst (assignMoney 3 zeroLedger ''rent'' ''2024-01'' 20)) ''rent'' ''2024-01'' = 20 \<and>
   binary64 (assignedField zeroLedger ''rent'' ''2024-01'' + 1 / 2)
     = assignedField zeroLedger ''rent'' ''2024-01'' + 1 / 2 \<and>
   binary64 (1 / 2 + 1 / 4) = 1 / 2 + 1 / 4 \<and>
   assignedField (fst (assignMoney 2 (fst (assignMoney 1 zeroLedger ''rent'' ''2024-01'' (1 / 2)))
                         ''rent'' ''2024-01'' (1 / 4))) ''rent'' ''2024-01'' = 3 / 4 \<and>
   find (\<lambda>b. bud_categoryId b = ''rent'' \<and> bud_month b = ''2024-01'') (budgets emptyLedger) = None \<and>
   assignedField
     (fst (assignMoney 2 (fst (assignMoney 1 emptyLedger ''rent'' ''2024-01'' (binary64 (1 / 10))))
             ''rent'' ''2024-01'' (binary64 (1 / 5)))) ''rent'' ''2024-01''
     = 1351079888211149 / 4503599627370496"
proof -
  have x: "binary64 (assignedField zeroLedger ''rent'' ''2024-01'' + 1 / 2)
     = assignedField zeroLedger ''rent'' ''2024-01'' + 1 / 2"
    "binary64 (1 / 2 + 1 / 4) = 1 / 2 + 1 / 4"
    by (simp_all add: assignedField_def zeroLedger_def emptyLedger_def double_half
        double_three_quarters)
  note q = assignMoney_additive_when_exact[of "''rent''" "''2024-01''" 1 zeroLedger "1 / 2" "1 / 4" 2 3]
  note q' = assignMoney_additive_when_exact[of "''rent''" "''2024-01''" 3 zeroLedger
      "binary64 (1 / 2 + 1 / 4)"]
  from q x have "assignedField (fst (assignMoney 2 (fst (assignMoney 1 zeroLedger ''rent'' ''2024-01'' (1 / 2)))
                         ''rent'' ''2024-01'' (1 / 4))) ''rent'' ''2024-01''
      = assignedField (fst (assignMoney 3 zeroLedger ''rent'' ''2024-01'' (binary64 (1 / 2 + 1 / 4))))
          ''rent'' ''2024-01''"
    by blast
  also from q' have "\<dots> = binary64 (assignedField zeroLedger ''rent'' ''2024-01'' + binary64 (1 / 2 + 1 / 4))"
    by (simp add: zeroLedger_def emptyLedger_def)
  also have "\<dots> = 3 / 4"
    by (simp add: assignedField_def zeroLedger_def emptyLedger_def double_three_quarters)
  finally have three: "assignedField (fst (assignMoney 2 (fst (assignMoney 1 zeroLedger ''rent'' ''2024-01'' (1 / 2)))
                         ''rent'' ''2024-01'' (1 / 4))) ''rent'' ''2024-01'' = 3 / 4" .
  have z: "find (\<lambda>b. bud_categoryId b = ''rent'' \<and> bud_month b = ''2024-01'') (budgets zeroLedger) \<noteq> None"
    "assignedField zeroLedger ''rent'' ''2024-01'' = of_int 0"
    by (simp_all add: assignedField_def zeroLedger_def emptyLedger_def)
  have e: "find (\<lambda>b. bud_categoryId b = ''rent'' \<and> bud_month b = ''2024-01'') (budgets emptyLedger) = None"
    by (simp add: emptyLedger_def)
  note w = assignMoney_additive_when_exact[of "''rent''" "''2024-01''" 3 zeroLedger 20 10 2 3]
  from w z have one: "assignedField (fst (assignMoney 3 zeroLedger ''rent'' ''2024-01'' 20)) ''rent'' ''2024-01'' = 20"
    by (simp add: binary64_numeral)
  note v = assignMoney_additive_when_exact[of "''rent''" "''2024-01''" 1 zeroLedger 10 10 2 3]
  have "\<exists>k. assignedField zeroLedger ''rent'' ''2024-01'' = real_of_int k \<and> \<bar>k\<bar> \<le> 2 ^ 52"
    by (rule exI[of _ 0]) (simp add: z(2))
  with v have "assignedField (fst (assignMoney 2 (fst (assignMoney 1 zeroLedger ''rent'' ''2024-01'' 10))
                         ''rent'' ''2024-01'' 10)) ''rent'' ''2024-01''
      = assignedField (fst (assignMoney 3 zeroLedger ''rent'' ''2024-01'' 20)) ''rent'' ''2024-01''"
    by blast
  with one have two: "assignedField (fst (assignMoney 2 (fst (assignMoney 1 zeroLedger ''rent'' ''2024-01'' 10))
                         ''rent'' ''2024-01'' 10)) ''rent'' ''2024-01'' = 20"
    by simp
  note u = assignMoney_additive_when_exact[of "''rent''" "''2024-01''" 1 emptyLedger "binary64 (1 / 10)"
      "binary64 (1 / 5)" 2 3]
  note u' = assignMoney_additive_when_exact[of "''rent''" "''2024-01''" 3 emptyLedger
      "binary64 (binary64 (1 / 10) + binary64 (1 / 5))"]
  from u e have "assignedField
     (fst (assignMoney 2 (fst (assignMoney 1 emptyLedger ''rent'' ''2024-01'' (binary64 (1 / 10))))
             ''rent'' ''2024-01'' (binary64 (1 / 5)))) ''rent'' ''2024-01''
     = assignedField (fst (assignMoney 3 emptyLedger ''rent'' ''2024-01''
          (binary64 (binary64 (1 / 10) + binary64 (1 / 5))))) ''rent'' ''2024-01''"
    by blast
  also from u' e have "\<dots> = binary64 (binary64 (1 / 10) + binary64 (1 / 5))"
    by simp
  also have "\<dots> = 1351079888211149 / 4503599627370496"
    by (simp add: double_0_1 double_0_2 double_0_1_plus_0_2)
  finally show ?thesis using z e one two x three by blast
qed

subsection \<open>The loops of the automatic assignment\<close>

lemma calculateGoalProgress_error:
  "calculateGoalProgress h d goalId = Inl e \<longleftrightarrow> find (\<lambda>g. goal_id g = goalId) (goals d) = None"
  by (cases e) (simp add: calculateGoalProgress_def Let_def split: option.splits prod.splits)

lemma find_Some_member: "find P xs = Some x \<Longrightarrow> x \<in> set xs \<and> P x"
  by (induction xs) (auto split: if_splits)

lemma find_None_all: "find P xs = None \<longleftrightarrow> (\<forall>x\<in>set xs. \<not> P x)"
  by (induction xs) auto

lemma calculateGoalProgress_of_found:
  assumes "find P (goals d) = Some goal"
  shows "calculateGoalProgress h d (goal_id goal) \<noteq> Inl e"
proof -
  from find_Some_member[OF assms] have "goal \<in> set (goals d)" by simp
  then have "find (\<lambda>g. goal_id g = goal_id goal) (goals d) \<noteq> None"
    by (auto simp: find_None_all)
  then show ?thesis by (simp add: calculateGoalProgress_error)
qed

lemma assignMoney_unique_pair:
  "uniqueBudgets d \<Longrightarrow> assignMoney t d c m a = (d', i) \<Longrightarrow> uniqueBudgets d'"
  using assignMoney_unique[of d t c m a] by simp

lemma coverOverspent_unique:
  "uniqueBudgets d \<Longrightarrow> uniqueBudgets (fst (coverOverspent h m cs d as r))"
proof (induction cs arbitrary: d as r)
  case Nil
  then show ?case by simp
next
  case (Cons c cs)
  show ?case
  proof (cases "r \<le> 0")
    case True
    with Cons.prems show ?thesis by simp
  next
    case False
    define a where "a = min \<bar>calculateCategoryAvailable d c m\<bar> r"
    obtain d1 i where am: "assignMoney (dateNow h (length as)) d c m a = (d1, i)"
      by (cases "assignMoney (dateNow h (length as)) d c m a")
    from assignMoney_unique_pair[OF Cons.prems am] have u: "uniqueBudgets d1" .
    have "coverOverspent h m (c # cs) d as r = coverOverspent h m cs d1 (as @ [i]) (binary64 (r - a))"
      using False am by (simp add: Let_def a_def)
    with Cons.IH[OF u] show ?thesis by simp
  qed
qed

lemma fundGoal_unique:
  "uniqueBudgets d \<Longrightarrow> fundGoal h m c d as r = Inr (d', as', r') \<Longrightarrow> uniqueBudgets d'"
  by (auto simp: fundGoal_def Let_def split: option.splits if_splits sum.splits prod.splits
      dest: assignMoney_unique_pair)

lemma fundGoals_unique:
  "uniqueBudgets d \<Longrightarrow> uniqueBudgets (fst (fundGoals h m cs d as r))"
proof (induction cs arbitrary: d as r)
  case Nil
  then show ?case by simp
next
  case (Cons c cs)
  show ?case
  proof (cases "r \<le> 0")
    case True
    with Cons.prems show ?thesis by simp
  next
    case False
    show ?thesis
    proof (cases "fundGoal h m c d as r")
      case (Inl e)
      with False Cons.prems show ?thesis by simp
    next
      case (Inr x)
      obtain d1 as1 r1 where x: "x = (d1, as1, r1)" by (cases x)
      from fundGoal_unique[OF Cons.prems Inr[unfolded x]] have "uniqueBudgets d1" .
      from Cons.IH[OF this] show ?thesis using False Inr x by simp
    qed
  qed
qed

lemma autoAssignMoney_nothing:
  "toBeBudgeted (getMonthlyBudgetSummary d month) \<le> 0 \<Longrightarrow>
     autoAssignMoney h d month priorities = (d, Inr [])"
  by (simp add: autoAssignMoney_def Let_def)

lemma tbb_rounding:
  "toBeBudgeted (getMonthlyBudgetSummary roundingLedger ''2024-03'')
     = 7105835787060511 / 8796093022208"
  by (simp add: getMonthlyBudgetSummary_def calculateAvailableToBudget_def
      calculateOverspending_def getMonthlyIncome_def roundingLedger_def emptyLedger_def
      previous_of_march Let_def double_807_84)

lemma run_rounding:
  "budgets (fst (autoAssignMoney exHost roundingLedger ''2024-03'' [])) =
     [\<lparr>bud_id = ''b1'', bud_categoryId = ''food'', bud_month = ''2024-03'',
       bud_assigned = 4168116639503483 / 17592186044416,
       bud_activity = - (4168116639503483 / 17592186044416), bud_available = 0\<rparr>,
      \<lparr>bud_id = ''b2'', bud_categoryId = ''rent'', bud_month = ''2024-03'',
       bud_assigned = 2510888733654385 / 4398046511104,
       bud_activity = - (7613986080953467 / 8796093022208),
       bud_available = 2510888733654385 / 4398046511104 - 7613986080953467 / 8796093022208\<rparr>]"
  unfolding autoAssignMoney_def tbb_rounding Let_def
  by (simp add: getOverspentCategories_def
      calculateCategoryAvailable_def getCategoryActivity_def assignMoney_def
      roundingLedger_def emptyLedger_def exHost_def previous_of_march Let_def
      double_807_84 double_236_93 double_865_61 double_807_84_minus_236_93
      double_236_93_stays double_570_91_stays binary64_zero)

text \<open>
  C4 (the code departs from the claim): in \<open>roundingLedger\<close> the money to be budgeted
  is 807.84. \<open>autoAssignMoney\<close> assigns 236.93 to the first overspent envelope; the
  money it has left, \<open>807.84 - 236.93\<close>, is rounded up to \<open>570.9100000000001\<close>, and all
  of it goes to the second envelope. The total added to the \<open>assigned\<close> fields exceeds
  the money to be budgeted before the call (by \<open>2 ^ -44\<close>), and the summary of the
  ledger after the call reports it over-assigned. (The numbers are written as the
  fractions that the doubles denote.)
\<close>

theorem autoAssignMoney_overassigns:
  "toBeBudgeted (getMonthlyBudgetSummary roundingLedger ''2024-03'')
     = 7105835787060511 / 8796093022208 \<and>
   map bud_assigned (budgets roundingLedger) = [0, 0] \<and>
   map bud_assigned (budgets (fst (autoAssignMoney exHost roundingLedger ''2024-03'' [])))
     = [4168116639503483 / 17592186044416, 2510888733654385 / 4398046511104] \<and>
   totalAssignedAll (fst (autoAssignMoney exHost roundingLedger ''2024-03'' []))
       - totalAssignedAll roundingLedger
     = toBeBudgeted (getMonthlyBudgetSummary roundingLedger ''2024-03'') + 1 / 17592186044416 \<and>
   toBeBudgeted (getMonthlyBudgetSummary roundingLedger ''2024-03'')
     < totalAssignedAll (fst (autoAssignMoney exHost roundingLedger ''2024-03'' []))
         - totalAssignedAll roundingLedger \<and>
   isOverAssigned
     (getMonthlyBudgetSummary (fst (autoAssignMoney exHost roundingLedger ''2024-03'' [])) ''2024-03'')"
proof -
  have f: "transactions (fst (autoAssignMoney exHost roundingLedger ''2024-03'' []))
      = transactions roundingLedger"
    unfolding autoAssignMoney_def tbb_rounding Let_def
    by (simp add: getOverspentCategories_def
      calculateCategoryAvailable_def getCategoryActivity_def assignMoney_def
      roundingLedger_def emptyLedger_def exHost_def previous_of_march Let_def
      double_807_84 double_236_93 double_865_61 double_807_84_minus_236_93
      double_236_93_stays double_570_91_stays binary64_zero)
  have o: "isOverAssigned
     (getMonthlyBudgetSummary (fst (autoAssignMoney exHost roundingLedger ''2024-03'' [])) ''2024-03'')"
    unfolding getMonthlyBudgetSummary_def calculateAvailableToBudget_def
      calculateOverspending_def getMonthlyIncome_def Let_def run_rounding f
    by (simp add: roundingLedger_def emptyLedger_def previous_of_march double_807_84)
  have t: "totalAssignedAll roundingLedger = 0" "map bud_assigned (budgets roundingLedger) = [0, 0]"
    by (simp_all add: totalAssignedAll_def roundingLedger_def emptyLedger_def)
  have a: "totalAssignedAll (fst (autoAssignMoney exHost roundingLedger ''2024-03'' []))
      = 4168116639503483 / 17592186044416 + 2510888733654385 / 4398046511104"
    by (simp add: totalAssignedAll_def run_rounding)
  show ?thesis
    unfolding tbb_rounding a t using o by (simp add: run_rounding)
qed

subsection \<open>One record for a category and month\<close>

lemma autoAssignMoney_unique:
  "uniqueBudgets d \<Longrightarrow> uniqueBudgets (fst (autoAssignMoney h d month priorities))"
proof (cases "0 < toBeBudgeted (getMonthlyBudgetSummary d month)")
  case True
  assume u: "uniqueBudgets d"
  let ?tbb = "toBeBudgeted (getMonthlyBudgetSummary d month)"
  obtain d1 as1 r1 where
    c: "coverOverspent h month (getOverspentCategories d month) d [] ?tbb = (d1, as1, r1)"
    by (cases "coverOverspent h month (getOverspentCategories d month) d [] ?tbb") auto
  from coverOverspent_unique[OF u, of h month "getOverspentCategories d month" "[]" ?tbb] c
  have u1: "uniqueBudgets d1" by simp
  obtain d2 res where g: "fundGoals h month priorities d1 as1 r1 = (d2, res)"
    by (cases "fundGoals h month priorities d1 as1 r1")
  from fundGoals_unique[OF u1, of h month priorities as1 r1] g have u2: "uniqueBudgets d2" by simp
  have "fst (autoAssignMoney h d month priorities) = d2"
    using True c g by (cases res) (simp_all add: autoAssignMoney_def Let_def)
  with u2 show ?thesis by simp
next
  case False
  assume u: "uniqueBudgets d"
  from False have "autoAssignMoney h d month priorities = (d, Inr [])"
    by (simp add: autoAssignMoney_nothing)
  with u show ?thesis by simp
qed

lemma perform_unique: "uniqueBudgets d \<Longrightarrow> uniqueBudgets (perform c d)"
  by (cases c) (simp_all add: assignMoney_unique autoAssignMoney_unique)

lemma performAll_unique: "uniqueBudgets d \<Longrightarrow> uniqueBudgets (performAll calls d)"
  unfolding performAll_def
  by (induction calls arbitrary: d) (simp_all add: perform_unique)

lemma assignMoney_in_place:
  assumes "findIndex (\<lambda>b. bud_categoryId b = c \<and> bud_month b = m) (budgets d) = Some i"
  shows "\<exists>b. budgets (fst (assignMoney t d c m a)) = (budgets d)[i := b] \<and>
             budgetKey b = (c, m) \<and> bud_id b = bud_id (budgets d ! i) \<and>
             snd (assignMoney t d c m a) = i"
proof -
  from assignMoney_existing[OF assms, of t a] obtain v where
    "assignMoney t d c m a =
     (d\<lparr>budgets := (budgets d)[i := (budgets d ! i)
          \<lparr>bud_assigned := binary64 (bud_assigned (budgets d ! i) + a), bud_available := v\<rparr>]\<rparr>, i)"
    by blast
  moreover from findIndex_Some[OF assms] have "budgetKey (budgets d ! i) = (c, m)"
    by (simp add: budgetKey_def)
  ultimately show ?thesis
    by (intro exI[of _ "(budgets d ! i)
          \<lparr>bud_assigned := binary64 (bud_assigned (budgets d ! i) + a), bud_available := v\<rparr>"])
       (simp add: budgetKey_def)
qed

lemma assignMoney_appends:
  assumes "findIndex (\<lambda>b. bud_categoryId b = c \<and> bud_month b = m) (budgets d) = None"
  shows "\<exists>b. budgets (fst (assignMoney t d c m a)) = budgets d @ [b] \<and> budgetKey b = (c, m) \<and>
             snd (assignMoney t d c m a) = length (budgets d)"
proof -
  from assignMoney_new[OF assms, of t a] obtain v where
    "assignMoney t d c m a =
     (d\<lparr>budgets := budgets d @
          [\<lparr>bud_id = ''budget-'' @ String t @ ''-'' @ c, bud_categoryId = c, bud_month = m,
            bud_assigned = a, bud_activity = getCategoryActivity d c m, bud_available = v\<rparr>]\<rparr>,
      length (budgets d))" by blast
  then show ?thesis by (simp add: budgetKey_def)
qed

text \<open>
  C8: if no two Budget records of the ledger share a category and month, then none do
  after any sequence of calls of \<open>assignMoney\<close> and \<open>autoAssignMoney\<close>; and \<open>assignMoney\<close>
  replaces the record at the position of the first match when there is one, keeping its
  id, category and month, and otherwise appends one record for the category and month.
\<close>

theorem budgets_stay_unique:
  "(uniqueBudgets d \<longrightarrow> uniqueBudgets (performAll calls d)) \<and>
   (\<forall>i. findIndex (\<lambda>b. bud_categoryId b = c \<and> bud_month b = m) (budgets d) = Some i \<longrightarrow>
      (\<exists>b. budgets (fst (assignMoney t d c m a)) = (budgets d)[i := b] \<and>
           budgetKey b = (c, m) \<and> bud_id b = bud_id (budgets d ! i))) \<and>
   (findIndex (\<lambda>b. bud_categoryId b = c \<and> bud_month b = m) (budgets d) = None \<longrightarrow>
      (\<exists>b. budgets (fst (assignMoney t d c m a)) = budgets d @ [b] \<and> budgetKey b = (c, m)))"
  using performAll_unique[of d calls] assignMoney_in_place[of c m d _ t a]
    assignMoney_appends[of c m d t a]
  by blast

theorem budgets_stay_unique_witness:
  "uniqueBudgets zeroLedger \<and>
   uniqueBudgets
     (performAll [AssignMoney 1 ''rent'' ''2024-01'' 5, AutoAssignMoney exHost ''2024-03'' [],
                  AssignMoney 2 ''food'' ''2024-01'' 5] zeroLedger) \<and>
   findIndex (\<lambda>b. bud_categoryId b = ''rent'' \<and> bud_month b = ''2024-01'') (budgets zeroLedger)
     = Some 1 \<and>
   (\<exists>b. budgets (fst (assignMoney 1 zeroLedger ''rent'' ''2024-01'' 5))
          = (budgets zeroLedger)[1 := b] \<and>
        budgetKey b = (''rent'', ''2024-01'') \<and> bud_id b = bud_id (budgets zeroLedger ! 1)) \<and>
   findIndex (\<lambda>b. bud_categoryId b = ''food'' \<and> bud_month b = ''2024-01'') (budgets zeroLedger)
     = None \<and>
   (\<exists>b. budgets (fst (assignMoney 1 zeroLedger ''food'' ''2024-01'' 5))
          = budgets zeroLedger @ [b] \<and>
        budgetKey b = (''food'', ''2024-01''))"
proof -
  have u: "uniqueBudgets zeroLedger"
    by (simp add: uniqueBudgets_def zeroLedger_def emptyLedger_def budgetKey_def)
  have i: "findIndex (\<lambda>b. bud_categoryId b = ''rent'' \<and> bud_month b = ''2024-01'')
             (budgets zeroLedger) = Some 1"
    by (simp add: zeroLedger_def emptyLedger_def)
  have n: "findIndex (\<lambda>b. bud_categoryId b = ''food'' \<and> bud_month b = ''2024-01'')
             (budgets zeroLedger) = None"
    by (simp add: zeroLedger_def emptyLedger_def)
  from budgets_stay_unique[of zeroLedger
      "[AssignMoney 1 ''rent'' ''2024-01'' 5, AutoAssignMoney exHost ''2024-03'' [],
        AssignMoney 2 ''food'' ''2024-01'' 5]" "''rent''" "''2024-01''" 1 5]
    budgets_stay_unique[of zeroLedger "[]" "''food''" "''2024-01''" 1 5]
    u i n
  show ?thesis by blast
qed


subsection \<open>The progress of a goal\<close>

text \<open>
  C5, as the claim states it, fails where it gives the progress of every goal that
  exists as \<open>currentAmount / targetAmount * 100\<close>: the goal \<open>negativeGoal\<close> exists, that
  quotient is 50 below zero, and the progress returned is 0.
\<close>

theorem goal_progress_counterexample:
  "find (\<lambda>g. goal_id g = ''g1'') (goals negativeGoalLedger) = Some negativeGoal \<and>
   calculateGoalProgress exHost negativeGoalLedger ''g1''
     = Inr \<lparr>progress = 0, monthsRemaining = Fin 0, onTrack = True, recommendedMonthly = 0\<rparr> \<and>
   goal_currentAmount negativeGoal / goal_targetAmount negativeGoal * 100 = - 50"
  by (simp add: calculateGoalProgress_def negativeGoalLedger_def negativeGoal_def emptyLedger_def)

lemma calculateGoalProgress_progress:
  "find (\<lambda>g. goal_id g = goalId) (goals d) = Some goal \<Longrightarrow>
   \<exists>p. calculateGoalProgress h d goalId = Inr p \<and>
       progress p = (if 0 < goal_targetAmount goal
                     then goal_currentAmount goal / goal_targetAmount goal * 100 else 0)"
  by (simp add: calculateGoalProgress_def Let_def split: option.splits prod.splits)

text \<open>
  C5, amended: \<open>calculateGoalProgress\<close> fails with the goal-not-found error if and only
  if no goal of the ledger has the id; when one has, it returns a result whose progress,
  for the first goal with the id, is \<open>currentAmount / targetAmount * 100\<close> when
  \<open>targetAmount\<close> is above zero and \<open>0\<close> when it is zero or below (a real number in every
  case). The operation returns no ledger: it writes nothing.
\<close>

theorem calculateGoalProgress_result:
  "(calculateGoalProgress h d goalId = Inl GoalNotFound
      \<longleftrightarrow> \<not> (\<exists>g \<in> set (goals d). goal_id g = goalId)) \<and>
   (\<forall>goal. find (\<lambda>g. goal_id g = goalId) (goals d) = Some goal \<longrightarrow>
      (\<exists>p. calculateGoalProgress h d goalId = Inr p \<and>
           progress p = (if 0 < goal_targetAmount goal
                         then goal_currentAmount goal / goal_targetAmount goal * 100 else 0)))"
proof -
  have "calculateGoalProgress h d goalId = Inl GoalNotFound
      \<longleftrightarrow> \<not> (\<exists>g \<in> set (goals d). goal_id g = goalId)"
    using calculateGoalProgress_error[of h d goalId GoalNotFound]
    by (simp add: find_None_all)
  then show ?thesis using calculateGoalProgress_progress[of goalId d _ h] by blast
qed

theorem calculateGoalProgress_result_witness:
  "find (\<lambda>g. goal_id g = ''g2'') (goals savingsLedger) = Some savingsGoal \<and>
   (\<exists>p. calculateGoalProgress exHost savingsLedger ''g2'' = Inr p \<and> progress p = 25) \<and>
   \<not> (\<exists>g \<in> set (goals savingsLedger). goal_id g = ''g9'') \<and>
   calculateGoalProgress exHost savingsLedger ''g9'' = Inl GoalNotFound"
proof -
  have f: "find (\<lambda>g. goal_id g = ''g2'') (goals savingsLedger) = Some savingsGoal"
    by (simp add: savingsLedger_def savingsGoal_def emptyLedger_def)
  have n: "\<not> (\<exists>g \<in> set (goals savingsLedger). goal_id g = ''g9'')"
    by (simp add: savingsLedger_def savingsGoal_def emptyLedger_def)
  have v: "(if 0 < goal_targetAmount savingsGoal
            then goal_currentAmount savingsGoal / goal_targetAmount savingsGoal * 100 else 0) = 25"
    by (simp add: savingsGoal_def)
  from calculateGoalProgress_result[of exHost savingsLedger "''g2''"] f v
  have "\<exists>p. calculateGoalProgress exHost savingsLedger ''g2'' = Inr p \<and> progress p = 25"
    by simp
  moreover from calculateGoalProgress_result[of exHost savingsLedger "''g9''"] n
  have "calculateGoalProgress exHost savingsLedger ''g9'' = Inl GoalNotFound"
    by blast
  ultimately show ?thesis using f n by blast
qed

subsection \<open>The clock\<close>

text \<open>
  C9, as the claim states it, fails: the same call of \<open>assignMoney\<close> on the same ledger
  returns records with different ids at two readings of \<open>Date.now()\<close>, and the same call
  of \<open>calculateGoalProgress\<close> on the same ledger returns different results in March and
  in April.
\<close>

theorem clock_counterexample:
  "bud_id (returnedBudget (assignMoney 1700000000000 emptyLedger ''rent'' ''2024-01'' 5))
     = ''budget-1700000000000-rent'' \<and>
   bud_id (returnedBudget (assignMoney 1700000000001 emptyLedger ''rent'' ''2024-01'' 5))
     = ''budget-1700000000001-rent'' \<and>
   returnedBudget (assignMoney 1700000000000 emptyLedger ''rent'' ''2024-01'' 5)
     \<noteq> returnedBudget (assignMoney 1700000000001 emptyLedger ''rent'' ''2024-01'' 5) \<and>
   calculateGoalProgress exHost marchLedger ''g1''
     = Inr \<lparr>progress = 0, monthsRemaining = Fin 6, onTrack = True, recommendedMonthly = 50\<rparr> \<and>
   calculateGoalProgress aprilHost marchLedger ''g1''
     = Inr \<lparr>progress = 0, monthsRemaining = Fin 5, onTrack = False, recommendedMonthly = 60\<rparr>"
  by (simp add: assignMoney_def returnedBudget_def emptyLedger_def String.simps digitChar_def
      calculateGoalProgress_def marchLedger_def exHost_def aprilHost_def)

lemma assignMoney_clock:
  "snd (assignMoney t1 d c m a) = snd (assignMoney t2 d c m a) \<and>
   map eraseId (budgets (fst (assignMoney t1 d c m a)))
     = map eraseId (budgets (fst (assignMoney t2 d c m a))) \<and>
   (fst (assignMoney t1 d c m a))\<lparr>budgets := []\<rparr> = (fst (assignMoney t2 d c m a))\<lparr>budgets := []\<rparr>"
  by (simp add: assignMoney_def Let_def eraseId_def split: option.splits)

lemma assignMoney_clock_existing:
  "find (\<lambda>b. bud_categoryId b = c \<and> bud_month b = m) (budgets d) \<noteq> None \<Longrightarrow>
   assignMoney t1 d c m a = assignMoney t2 d c m a"
proof -
  assume "find (\<lambda>b. bud_categoryId b = c \<and> bud_month b = m) (budgets d) \<noteq> None"
  then obtain i where
    "findIndex (\<lambda>b. bud_categoryId b = c \<and> bud_month b = m) (budgets d) = Some i"
    by (cases "findIndex (\<lambda>b. bud_categoryId b = c \<and> bud_month b = m) (budgets d)")
       (auto simp: findIndex_None)
  then show ?thesis by (simp add: assignMoney_def)
qed

lemma calculateGoalProgress_clock:
  "map_sum (\<lambda>e. e) progress (calculateGoalProgress h1 d goalId)
     = map_sum (\<lambda>e. e) progress (calculateGoalProgress h2 d goalId)"
  by (simp add: calculateGoalProgress_def Let_def split: option.splits prod.splits)

lemma calculateGoalProgress_host:
  assumes "nowFullYear h1 = nowFullYear h2" "nowMonth h1 = nowMonth h2" "parseDate h1 = parseDate h2"
  shows "calculateGoalProgress h1 d goalId = calculateGoalProgress h2 d goalId"
  unfolding calculateGoalProgress_def assms by (rule refl)

lemma calculateGoalProgress_no_date:
  "find (\<lambda>g. goal_id g = goalId) (goals d) = Some goal \<Longrightarrow> goal_type goal \<noteq> target_date
   \<Longrightarrow> calculateGoalProgress h1 d goalId = calculateGoalProgress h2 d goalId"
  by (simp add: calculateGoalProgress_def)

lemma calculateAgeOfMoney_host:
  assumes "last90Days h1 = last90Days h2" "getTime h1 = getTime h2"
  shows "calculateAgeOfMoney h1 d = calculateAgeOfMoney h2 d"
  unfolding calculateAgeOfMoney_def assms by (rule refl)

lemma coverOverspent_host:
  "dateNow h1 = dateNow h2 \<Longrightarrow>
     coverOverspent h1 m cs d as r = coverOverspent h2 m cs d as r"
  by (induction cs arbitrary: d as r) (simp_all add: Let_def split: prod.splits)

lemma fundGoal_host:
  assumes "dateNow h1 = dateNow h2" "nowFullYear h1 = nowFullYear h2" "nowMonth h1 = nowMonth h2"
    "parseDate h1 = parseDate h2"
  shows "fundGoal h1 m c d as r = fundGoal h2 m c d as r"
  unfolding fundGoal_def calculateGoalProgress_host[OF assms(2-4)] assms(1) by (rule refl)

lemma fundGoals_host:
  assumes "dateNow h1 = dateNow h2" "nowFullYear h1 = nowFullYear h2" "nowMonth h1 = nowMonth h2"
    "parseDate h1 = parseDate h2"
  shows "fundGoals h1 m cs d as r = fundGoals h2 m cs d as r"
  by (induction cs arbitrary: d as r)
     (simp_all add: fundGoal_host[OF assms] split: sum.splits prod.splits)

lemma autoAssignMoney_host:
  assumes "dateNow h1 = dateNow h2" "nowFullYear h1 = nowFullYear h2" "nowMonth h1 = nowMonth h2"
    "parseDate h1 = parseDate h2"
  shows "autoAssignMoney h1 d m ps = autoAssignMoney h2 d m ps"
  unfolding autoAssignMoney_def coverOverspent_host[OF assms(1)] fundGoals_host[OF assms]
  by (rule refl)

text \<open>
  C9, amended: every operation is a function of its arguments, the ledger and what the
  host's clock and \<open>Date\<close> library give it, so two runs that agree on those return the
  same values. Between two runs at different readings of the clock, \<open>assignMoney\<close>
  returns the same position and writes the same records but for the id of a record it
  creates (when the record exists, the two runs agree in everything);
  \<open>calculateGoalProgress\<close> gives the same error or the same progress, and the same
  result altogether when the goal is not a \<open>target_date\<close> goal or when the current year
  and month are the same; \<open>autoAssignMoney\<close> agrees when the readings of \<open>Date.now()\<close>
  and the current year and month do; \<open>calculateAgeOfMoney\<close> agrees when the date ninety
  days back is the same. The other operations take no host.
\<close>

theorem clock_dependence:
  "snd (assignMoney t1 d c m a) = snd (assignMoney t2 d c m a) \<and>
   map eraseId (budgets (fst (assignMoney t1 d c m a)))
     = map eraseId (budgets (fst (assignMoney t2 d c m a))) \<and>
   (fst (assignMoney t1 d c m a))\<lparr>budgets := []\<rparr> = (fst (assignMoney t2 d c m a))\<lparr>budgets := []\<rparr> \<and>
   (find (\<lambda>b. bud_categoryId b = c \<and> bud_month b = m) (budgets d) \<noteq> None \<longrightarrow>
      assignMoney t1 d c m a = assignMoney t2 d c m a) \<and>
   map_sum (\<lambda>e. e) progress (calculateGoalProgress h1 d goalId)
     = map_sum (\<lambda>e. e) progress (calculateGoalProgress h2 d goalId) \<and>
   (nowFullYear h1 = nowFullYear h2 \<and> nowMonth h1 = nowMonth h2 \<and> parseDate h1 = parseDate h2 \<longrightarrow>
      calculateGoalProgress h1 d goalId = calculateGoalProgress h2 d goalId) \<and>
   (\<forall>goal. find (\<lambda>g. goal_id g = goalId) (goals d) = Some goal \<and> goal_type goal \<noteq> target_date \<longrightarrow>
      calculateGoalProgress h1 d goalId = calculateGoalProgress h2 d goalId) \<and>
   (dateNow h1 = dateNow h2 \<and> nowFullYear h1 = nowFullYear h2 \<and> nowMonth h1 = nowMonth h2 \<and>
    parseDate h1 = parseDate h2 \<longrightarrow>
      autoAssignMoney h1 d m priorities = autoAssignMoney h2 d m priorities) \<and>
   (last90Days h1 = last90Days h2 \<and> getTime h1 = getTime h2 \<longrightarrow>
      calculateAgeOfMoney h1 d = calculateAgeOfMoney h2 d)"
proof -
  note 1 = assignMoney_clock[of t1 d c m a t2]
  have 2: "find (\<lambda>b. bud_categoryId b = c \<and> bud_month b = m) (budgets d) \<noteq> None \<longrightarrow>
      assignMoney t1 d c m a = assignMoney t2 d c m a"
    using assignMoney_clock_existing[of c m d t1 a t2] by blast
  note 3 = calculateGoalProgress_clock[of h1 d goalId h2]
  have 4: "nowFullYear h1 = nowFullYear h2 \<and> nowMonth h1 = nowMonth h2 \<and> parseDate h1 = parseDate h2 \<longrightarrow>
      calculateGoalProgress h1 d goalId = calculateGoalProgress h2 d goalId"
    using calculateGoalProgress_host[of h1 h2 d goalId] by blast
  have 5: "\<forall>goal. find (\<lambda>g. goal_id g = goalId) (goals d) = Some goal \<and> goal_type goal \<noteq> target_date \<longrightarrow>
      calculateGoalProgress h1 d goalId = calculateGoalProgress h2 d goalId"
    using calculateGoalProgress_no_date[of goalId d _ h1 h2] by blast
  have 6: "dateNow h1 = dateNow h2 \<and> nowFullYear h1 = nowFullYear h2 \<and> nowMonth h1 = nowMonth h2 \<and>
    parseDate h1 = parseDate h2 \<longrightarrow>
      autoAssignMoney h1 d m priorities = autoAssignMoney h2 d m priorities"
    using autoAssignMoney_host[of h1 h2 d m priorities] by blast
  have 7: "last90Days h1 = last90Days h2 \<and> getTime h1 = getTime h2 \<longrightarrow>
      calculateAgeOfMoney h1 d = calculateAgeOfMoney h2 d"
    using calculateAgeOfMoney_host[of h1 h2 d] by blast
  show ?thesis
    by (intro conjI conjunct1[OF 1] conjunct1[OF conjunct2[OF 1]] conjunct2[OF conjunct2[OF 1]]
        2 3 4 5 6 7)
qed

theorem clock_dependence_witness:
  "find (\<lambda>b. bud_categoryId b = ''rent'' \<and> bud_month b = ''2024-01'') (budgets zeroLedger) \<noteq> None \<and>
   assignMoney 1 zeroLedger ''rent'' ''2024-01'' 5 = assignMoney 2 zeroLedger ''rent'' ''2024-01'' 5 \<and>
   find (\<lambda>g. goal_id g = ''g2'') (goals savingsLedger) = Some savingsGoal \<and>
   goal_type savingsGoal \<noteq> target_date \<and>
   calculateGoalProgress exHost savingsLedger ''g2'' = calculateGoalProgress aprilHost savingsLedger ''g2'' \<and>
   calculateGoalProgress exHost marchLedger ''g1'' = calculateGoalProgress otherHost marchLedger ''g1'' \<and>
   autoAssignMoney exHost marchLedger ''2024-03'' [''vacation'']
     = autoAssignMoney otherHost marchLedger ''2024-03'' [''vacation''] \<and>
   calculateAgeOfMoney exHost marchLedger = calculateAgeOfMoney aprilHost marchLedger"
proof -
  have b: "find (\<lambda>b. bud_categoryId b = ''rent'' \<and> bud_month b = ''2024-01'') (budgets zeroLedger) \<noteq> None"
    by (simp add: zeroLedger_def emptyLedger_def)
  have g: "find (\<lambda>g. goal_id g = ''g2'') (goals savingsLedger) = Some savingsGoal"
    "goal_type savingsGoal \<noteq> target_date"
    by (simp_all add: savingsLedger_def savingsGoal_def emptyLedger_def)
  have o: "dateNow exHost = dateNow otherHost" "nowFullYear exHost = nowFullYear otherHost"
    "nowMonth exHost = nowMonth otherHost" "parseDate exHost = parseDate otherHost"
    by (simp_all add: otherHost_def)
  have p: "last90Days exHost = last90Days aprilHost" "getTime exHost = getTime aprilHost"
    by (simp_all add: aprilHost_def)
  note t1 = clock_dependence[of 1 zeroLedger "''rent''" "''2024-01''" 5 2 exHost "''g2''" aprilHost]
  note t2 = clock_dependence[of 1 savingsLedger "''rent''" "''2024-01''" 5 2 exHost "''g2''" aprilHost]
  note t3 = clock_dependence[of 1 marchLedger "''rent''" "''2024-03''" 5 2 exHost "''g1''" otherHost
      "[''vacation'']"]
  note t4 = clock_dependence[of 1 marchLedger "''rent''" "''2024-03''" 5 2 exHost "''g1''" aprilHost]
  from t1 b have 1: "assignMoney 1 zeroLedger ''rent'' ''2024-01'' 5 = assignMoney 2 zeroLedger ''rent'' ''2024-01'' 5"
    by blast
  from t2 g have 2: "calculateGoalProgress exHost savingsLedger ''g2''
      = calculateGoalProgress aprilHost savingsLedger ''g2''"
    by blast
  from t3 o have 3: "calculateGoalProgress exHost marchLedger ''g1''
      = calculateGoalProgress otherHost marchLedger ''g1''"
    "autoAssignMoney exHost marchLedger ''2024-03'' [''vacation'']
     = autoAssignMoney otherHost marchLedger ''2024-03'' [''vacation'']"
    by blast+
  from t4 p have 4: "calculateAgeOfMoney exHost marchLedger = calculateAgeOfMoney aprilHost marchLedger"
    by blast
  from b g 1 2 3 4 show ?thesis by blast
qed

subsection \<open>The plan is the sorted list of the debts\<close>

lemma mset_insertBy: "mset (insertBy cmp x xs) = add_mset x (mset xs)"
  by (induction xs) auto

lemma mset_sortBy: "mset (sortBy cmp xs) = mset xs"
  by (induction xs) (auto simp: mset_insertBy)


lemma length_sortBy: "length (sortBy cmp xs) = length xs"
  using mset_sortBy[of cmp xs] by (metis size_mset)



lemma planStep_unplanned: "unplanned (planStep lg x i e) = unplanned e"
  by (simp add: planStep_def unplanned_def Let_def)

lemma planEntry_unplanned: "unplanned (planEntry a) = planEntry a"
  by (simp add: planEntry_def unplanned_def)


lemma map_enumerate_nth:
  "i < length xs \<Longrightarrow> map (\<lambda>(index, e). f index e) (enumerate 0 xs) ! i = f i (xs ! i)"
  by (simp add: nth_enumerate_eq)

lemma map_unplanned_steps:
  "map unplanned (map (\<lambda>(index, debt). planStep lg x index debt) (enumerate n xs)) = map unplanned xs"
  by (induction xs arbitrary: n) (simp_all add: planStep_unplanned)


lemma calculateDebtPayoffPlan_steps:
  "calculateDebtPayoffPlan lg d x strat =
     map (\<lambda>(index, debt). planStep lg x index debt) (enumerate 0 (sortedPlan d strat))"
  by (simp add: calculateDebtPayoffPlan_def sortedPlan_def Let_def)

lemma mset_sortedPlan: "mset (sortedPlan d strat) = mset (map planEntry (getDebtAccounts d))"
  by (simp add: sortedPlan_def mset_sortBy)

lemma plan_permutation:
  "mset (map unplanned (calculateDebtPayoffPlan lg d x strat)) = mset (map planEntry (getDebtAccounts d))"
proof -
  have "map unplanned (calculateDebtPayoffPlan lg d x strat) = map unplanned (sortedPlan d strat)"
    by (simp only: calculateDebtPayoffPlan_steps map_unplanned_steps)
  then have "mset (map unplanned (calculateDebtPayoffPlan lg d x strat))
      = image_mset unplanned (mset (sortedPlan d strat))"
    by simp
  also have "\<dots> = image_mset unplanned (mset (map planEntry (getDebtAccounts d)))"
    by (simp only: mset_sortedPlan)
  also have "\<dots> = mset (map (\<lambda>a. unplanned (planEntry a)) (getDebtAccounts d))"
    by (simp add: multiset.map_comp comp_def)
  also have "\<dots> = mset (map planEntry (getDebtAccounts d))"
    by (simp only: planEntry_unplanned)
  finally show ?thesis .
qed











subsection \<open>The minimum payment of a loan\<close>

text \<open>
  C2, as the claim states it, fails for a loan whose interest rate is unset: with a
  balance of 1200 the minimum payment in the plan is 0, not 1200 / 120.
\<close>

theorem loan_payment_counterexample:
  "map plan_accountId (calculateDebtPayoffPlan roundedLog loanLedger 0 avalanche) = [''car''] \<and>
   map plan_balance (calculateDebtPayoffPlan roundedLog loanLedger 0 avalanche) = [1200] \<and>
   map plan_minimumPayment (calculateDebtPayoffPlan roundedLog loanLedger 0 avalanche) = [Fin 0] \<and>
   map plan_minimumPayment (calculateDebtPayoffPlan roundedLog loanLedger 0 avalanche) \<noteq> [Fin (1200 / 120)]"
  by (simp add: calculateDebtPayoffPlan_def getDebtAccounts_def planEntry_def planStep_def
      loanLedger_def carLoan_def emptyLedger_def Let_def)

lemma power_120_one: "(x::real) ^ 120 = 1 \<Longrightarrow> x = 1 \<or> x = - 1"
proof -
  assume "x ^ 120 = 1"
  from power_eq_1_iff[OF this] have "\<bar>x\<bar> = 1" by simp
  then show ?thesis by linarith
qed

lemma calculateLoanPayment_formula:
  assumes "a \<noteq> 0" "a \<noteq> - 2400"
  shows "calculateLoanPayment B a 10 =
     Fin (B * (a / 100 / 12) * (1 + a / 100 / 12) ^ 120 / ((1 + a / 100 / 12) ^ 120 - 1))"
proof -
  define r where "r = a / 100 / 12"
  have r: "r \<noteq> 0" "r \<noteq> - 2" using assms by (simp_all add: r_def)
  have "(1 + r) ^ 120 \<noteq> 1"
    using power_120_one[of "1 + r"] r by auto
  then have d: "(1 + r) ^ 120 - 1 \<noteq> 0" by simp
  have n: "(10::nat) * 12 = 120" by simp
  have "calculateLoanPayment B a 10 =
      jdiv (Fin (B * (r * (1 + r) ^ 120))) (Fin ((1 + r) ^ 120 - 1))"
    unfolding calculateLoanPayment_def Let_def r_def[symmetric] n using r(1) by (simp only: if_False)
  also have "\<dots> = Fin (B * (r * (1 + r) ^ 120) / ((1 + r) ^ 120 - 1))"
    using d by (simp only: jdiv.simps if_True simp_thms)
  also have "B * (r * (1 + r) ^ 120) = B * r * (1 + r) ^ 120" by (simp only: mult.assoc)
  finally show ?thesis unfolding r_def .
qed

lemma plan_has_entry:
  assumes "account \<in> set (accounts d)" "acc_type account = loan \<or> acc_type account = credit_card"
  shows "\<exists>e \<in> set (calculateDebtPayoffPlan lg d x strat). unplanned e = planEntry account"
proof -
  have "account \<in> set (getDebtAccounts d)"
    using assms by (auto simp: getDebtAccounts_def)
  then have "planEntry account \<in> set (map planEntry (getDebtAccounts d))" by simp
  also have "set (map planEntry (getDebtAccounts d))
      = set_mset (mset (map planEntry (getDebtAccounts d)))"
    by (simp only: set_mset_mset)
  also have "\<dots> = set_mset (mset (map unplanned (calculateDebtPayoffPlan lg d x strat)))"
    by (simp only: plan_permutation)
  also have "\<dots> = unplanned ` set (calculateDebtPayoffPlan lg d x strat)"
    by (simp only: set_mset_mset set_map)
  finally show ?thesis by (auto simp: image_iff)
qed

lemma growth_bounds: "(1.81927::real) < (1 + 6 / 100 / 12) ^ 120 \<and> (1 + 6 / 100 / 12) ^ 120 < (1.8194::real)"
  by (simp add: power_divide)

lemma amort_bounds:
  "(111.02::real) < 10000 * (6 / 100 / 12) * (1 + 6 / 100 / 12) ^ 120 / ((1 + 6 / 100 / 12) ^ 120 - 1) \<and>
   10000 * (6 / 100 / 12) * (1 + 6 / 100 / 12) ^ 120 / ((1 + 6 / 100 / 12) ^ 120 - 1) < (111.03::real)"
proof -
  define q :: real where "q = (1 + 6 / 100 / 12) ^ 120"
  have q: "1.81927 < q" "q < 1.8194" using growth_bounds by (simp_all add: q_def)
  then have "0 < q - 1" by simp
  then have "111.02 < 50 * q / (q - 1) \<and> 50 * q / (q - 1) < 111.03"
    using q by (simp add: pos_less_divide_eq pos_divide_less_eq algebra_simps)
  then show ?thesis unfolding q_def by simp
qed

text \<open>
  C2, amended: for every loan account the plan has an entry with the account's id and
  the absolute value of its balance as balance \<open>B\<close>, whose minimum payment is \<open>0\<close> when
  the account's interest rate is unset, and is \<open>B * r * (1 + r) ^ n / ((1 + r) ^ n - 1)\<close>
  with \<open>r\<close> the rate divided by 100 and by 12 and \<open>n = 120\<close> when the rate is set and is
  neither \<open>0\<close> nor \<open>-2400\<close> (where the denominator is zero).
\<close>

theorem loan_minimumPayment:
  assumes "account \<in> set (accounts d)" "acc_type account = loan"
  shows "\<exists>e \<in> set (calculateDebtPayoffPlan lg d x strat).
           plan_accountId e = acc_id account \<and>
           plan_balance e = \<bar>acc_balance account\<bar> \<and>
           (acc_interestRate account = None \<longrightarrow> plan_minimumPayment e = Fin 0) \<and>
           (\<forall>a. acc_interestRate account = Some a \<and> a \<noteq> 0 \<and> a \<noteq> - 2400 \<longrightarrow>
              plan_minimumPayment e =
                Fin (\<bar>acc_balance account\<bar> * (a / 100 / 12) * (1 + a / 100 / 12) ^ 120
                       / ((1 + a / 100 / 12) ^ 120 - 1)))"
proof -
  from plan_has_entry[of account d lg x strat] assms obtain e where
    e: "e \<in> set (calculateDebtPayoffPlan lg d x strat)" and u: "unplanned e = planEntry account"
    by blast
  have f: "plan_accountId e = plan_accountId (unplanned e)"
    "plan_balance e = plan_balance (unplanned e)"
    "plan_minimumPayment e = plan_minimumPayment (unplanned e)"
    by (simp_all add: unplanned_def)
  have nc: "acc_type account \<noteq> credit_card" using assms(2) by simp
  have 1: "plan_accountId e = acc_id account" "plan_balance e = \<bar>acc_balance account\<bar>"
    unfolding f u by (simp_all add: planEntry_def)
  have 2: "plan_minimumPayment e = Fin 0" if "acc_interestRate account = None"
    unfolding f u using that nc by (simp add: planEntry_def)
  have 3: "plan_minimumPayment e =
                Fin (\<bar>acc_balance account\<bar> * (a / 100 / 12) * (1 + a / 100 / 12) ^ 120
                       / ((1 + a / 100 / 12) ^ 120 - 1))"
    if "acc_interestRate account = Some a" "a \<noteq> 0" "a \<noteq> - 2400" for a
  proof -
    have "plan_minimumPayment (planEntry account) = calculateLoanPayment \<bar>acc_balance account\<bar> a 10"
      using that(1,2) nc by (simp add: planEntry_def)
    then show ?thesis
      unfolding f u by (simp only: calculateLoanPayment_formula[OF that(2,3)])
  qed
  have 4: "\<forall>a. acc_interestRate account = Some a \<and> a \<noteq> 0 \<and> a \<noteq> - 2400 \<longrightarrow>
              plan_minimumPayment e =
                Fin (\<bar>acc_balance account\<bar> * (a / 100 / 12) * (1 + a / 100 / 12) ^ 120
                       / ((1 + a / 100 / 12) ^ 120 - 1))"
  proof (intro allI impI, elim conjE)
    fix a assume "acc_interestRate account = Some a" "a \<noteq> 0" "a \<noteq> - 2400"
    then show "plan_minimumPayment e =
                Fin (\<bar>acc_balance account\<bar> * (a / 100 / 12) * (1 + a / 100 / 12) ^ 120
                       / ((1 + a / 100 / 12) ^ 120 - 1))"
      by (rule 3)
  qed
  show ?thesis
    by (rule bexI[OF _ e]) (intro conjI impI 1 2 4, assumption)
qed

theorem loan_minimumPayment_witness:
  "mortgage \<in> set (accounts mortgageLedger) \<and> acc_type mortgage = loan \<and>
   acc_interestRate mortgage = Some 6 \<and>
   (\<exists>e \<in> set (calculateDebtPayoffPlan roundedLog mortgageLedger 0 avalanche).
      plan_accountId e = ''home'' \<and> plan_balance e = 10000 \<and>
      plan_minimumPayment e =
        Fin (10000 * (6 / 100 / 12) * (1 + 6 / 100 / 12) ^ 120 / ((1 + 6 / 100 / 12) ^ 120 - 1))) \<and>
   carLoan \<in> set (accounts loanLedger) \<and> acc_type carLoan = loan \<and>
   acc_interestRate carLoan = None \<and>
   (\<exists>e \<in> set (calculateDebtPayoffPlan roundedLog loanLedger 0 avalanche).
      plan_accountId e = ''car'' \<and> plan_balance e = 1200 \<and> plan_minimumPayment e = Fin 0) \<and>
   (111.02::real) < 10000 * (6 / 100 / 12) * (1 + 6 / 100 / 12) ^ 120 / ((1 + 6 / 100 / 12) ^ 120 - 1) \<and>
   10000 * (6 / 100 / 12) * (1 + 6 / 100 / 12) ^ 120 / ((1 + 6 / 100 / 12) ^ 120 - 1) < (111.03::real)"
proof -
  have m: "mortgage \<in> set (accounts mortgageLedger)"
    by (simp add: mortgageLedger_def emptyLedger_def)
  have t: "acc_type mortgage = loan" by (simp add: mortgage_def)
  have f: "acc_id mortgage = ''home''" "\<bar>acc_balance mortgage\<bar> = 10000"
    "acc_interestRate mortgage = Some 6"
    by (simp_all add: mortgage_def)
  have n: "(6::real) \<noteq> 0 \<and> (6::real) \<noteq> - 2400" by simp
  from loan_minimumPayment[OF m t, of roundedLog 0 avalanche] obtain e where
    e: "e \<in> set (calculateDebtPayoffPlan roundedLog mortgageLedger 0 avalanche)"
      "plan_accountId e = acc_id mortgage" "plan_balance e = \<bar>acc_balance mortgage\<bar>"
    and r: "\<forall>a. acc_interestRate mortgage = Some a \<and> a \<noteq> 0 \<and> a \<noteq> - 2400 \<longrightarrow>
              plan_minimumPayment e =
                Fin (\<bar>acc_balance mortgage\<bar> * (a / 100 / 12) * (1 + a / 100 / 12) ^ 120
                       / ((1 + a / 100 / 12) ^ 120 - 1))"
    by blast
  from r[rule_format, OF conjI[OF f(3) n]]
  have "plan_minimumPayment e =
        Fin (10000 * (6 / 100 / 12) * (1 + 6 / 100 / 12) ^ 120 / ((1 + 6 / 100 / 12) ^ 120 - 1))"
    unfolding f(2) .
  with e have "\<exists>e \<in> set (calculateDebtPayoffPlan roundedLog mortgageLedger 0 avalanche).
      plan_accountId e = ''home'' \<and> plan_balance e = 10000 \<and>
      plan_minimumPayment e =
        Fin (10000 * (6 / 100 / 12) * (1 + 6 / 100 / 12) ^ 120 / ((1 + 6 / 100 / 12) ^ 120 - 1))"
    unfolding f(1,2) by blast
  moreover have c: "carLoan \<in> set (accounts loanLedger)" "acc_type carLoan = loan"
    "acc_interestRate carLoan = None" "acc_id carLoan = ''car''" "\<bar>acc_balance carLoan\<bar> = 1200"
    by (simp_all add: loanLedger_def carLoan_def emptyLedger_def)
  from loan_minimumPayment[OF c(1,2), of roundedLog 0 avalanche] c(3)
  have "\<exists>e \<in> set (calculateDebtPayoffPlan roundedLog loanLedger 0 avalanche).
      plan_accountId e = ''car'' \<and> plan_balance e = 1200 \<and> plan_minimumPayment e = Fin 0"
    unfolding c(4,5) by blast
  ultimately show ?thesis using m t f(3) c(1-3) amort_bounds by blast
qed

subsection \<open>Payments that do not cover the interest\<close>

lemma calculatePayoffTime_interest:
  assumes r: "r = monthlyRateOf a" and x: "x = firstMonthInterest B a" and r0: "r \<noteq> 0"
    and p0: "0 < p"
  shows "calculatePayoffTime lg B a (Fin p) =
     \<lparr>months =
        jceil (jfl (jdiv (jneg (jlog lg (Fin (binary64 (1 - binary64 (x / p))))))
                      (jlog lg (Fin (binary64 (1 + r)))))),
      totalInterest =
        jmax (Fin 0)
          (jfl (jsub (jfl (jmul (Fin p)
                   (jceil (jfl (jdiv (jneg (jlog lg (Fin (binary64 (1 - binary64 (x / p))))))
                                  (jlog lg (Fin (binary64 (1 + r)))))))))
             (Fin B)))\<rparr>"
proof -
  have p: "jle0 (Fin p) = False" "p \<noteq> 0" using p0 by simp_all
  have r': "binary64 (binary64 (a / 100) / 12) = r" by (simp only: r monthlyRateOf_def)
  have x': "binary64 (B * r) = x" by (simp only: x firstMonthInterest_def r)
  have q: "jfl (jsub (Fin 1) (jfl (jdiv (Fin x) (Fin p)))) = Fin (binary64 (1 - binary64 (x / p)))"
    using p(2) by (simp add: jsub_def)
  show ?thesis
    unfolding calculatePayoffTime_def Let_def r' x' p(1) q using r0 by simp
qed

lemma one_plus_rate: "0 < r \<Longrightarrow> 0 < binary64 (1 + r)"
  using binary64_lower[of 0 "1 + r"] by simp

lemma payoff_finite:
  assumes "r = monthlyRateOf a" "x = firstMonthInterest B a" "0 < r" "0 < p"
    "0 < lg (binary64 (1 + r))" "0 < binary64 (1 - binary64 (x / p))"
  shows "\<exists>m. months (calculatePayoffTime lg B a (Fin p)) = Fin m"
proof -
  have r0: "r \<noteq> 0" using assms(3) by simp
  have l1: "jlog lg (Fin (binary64 (1 - binary64 (x / p)))) = Fin (lg (binary64 (1 - binary64 (x / p))))"
    using assms(6) by (simp only: jlog.simps if_True)
  have l2: "jlog lg (Fin (binary64 (1 + r))) = Fin (lg (binary64 (1 + r)))"
    using one_plus_rate[OF assms(3)] by (simp only: jlog.simps if_True)
  have n: "lg (binary64 (1 + r)) \<noteq> 0" using assms(5) by simp
  show ?thesis
    unfolding calculatePayoffTime_interest[OF assms(1,2) r0 assms(4)] l1 l2
    using n by simp
qed

lemma payoff_infinite:
  assumes "r = monthlyRateOf a" "x = firstMonthInterest B a" "0 < r" "0 < p"
    "0 < lg (binary64 (1 + r))" "binary64 (1 - binary64 (x / p)) = 0"
  shows "calculatePayoffTime lg B a (Fin p) = \<lparr>months = PosInf, totalInterest = PosInf\<rparr>"
proof -
  have r0: "r \<noteq> 0" using assms(3) by simp
  have l1: "jlog lg (Fin (binary64 (1 - binary64 (x / p)))) = NegInf"
    unfolding assms(6) by simp
  have l2: "jlog lg (Fin (binary64 (1 + r))) = Fin (lg (binary64 (1 + r)))"
    using one_plus_rate[OF assms(3)] by (simp only: jlog.simps if_True)
  have b: "\<not> lg (binary64 (1 + r)) < 0" using assms(5) by simp
  have m: "jceil (jfl (jdiv (jneg NegInf) (Fin (lg (binary64 (1 + r)))))) = PosInf"
    using b by (simp add: signedInf_def)
  have t: "jmax (Fin 0) (jfl (jsub (jfl (jmul (Fin p) PosInf)) (Fin B))) = PosInf"
    using assms(4) by (simp add: signedInf_def jsub_def)
  show ?thesis
    unfolding calculatePayoffTime_interest[OF assms(1,2) r0 assms(4)] l1 l2 m t
    by (rule refl)
qed

lemma payoff_nan:
  assumes "r = monthlyRateOf a" "x = firstMonthInterest B a" "0 < r" "0 < p"
    "binary64 (1 - binary64 (x / p)) < 0"
  shows "calculatePayoffTime lg B a (Fin p) = \<lparr>months = NaN, totalInterest = NaN\<rparr>"
proof -
  have r0: "r \<noteq> 0" using assms(3) by simp
  have "\<not> 0 < binary64 (1 - binary64 (x / p))" "binary64 (1 - binary64 (x / p)) \<noteq> 0"
    using assms(5) by simp_all
  then have l1: "jlog lg (Fin (binary64 (1 - binary64 (x / p)))) = NaN"
    by (simp only: jlog.simps if_False)
  have l2: "jlog lg (Fin (binary64 (1 + r))) = Fin (lg (binary64 (1 + r)))"
    using one_plus_rate[OF assms(3)] by (simp only: jlog.simps if_True)
  have m: "jceil (jfl (jdiv (jneg NaN) (Fin (lg (binary64 (1 + r)))))) = NaN" by simp
  have t: "jmax (Fin 0) (jfl (jsub (jfl (jmul (Fin p) NaN)) (Fin B))) = NaN" by (simp add: jsub_def)
  show ?thesis
    unfolding calculatePayoffTime_interest[OF assms(1,2) r0 assms(4)] l1 l2 m t
    by (rule refl)
qed

text \<open>
  How the payment compares with the interest decides the sign of the double
  \<open>1 - interest / payment\<close>, when both are doubles.
\<close>

lemma coverage_sign:
  assumes "binary64 p = p" "binary64 x = x" "0 < p"
  shows "(0 < binary64 (1 - binary64 (x / p)) \<longleftrightarrow> x < p) \<and>
         (binary64 (1 - binary64 (x / p)) = 0 \<longleftrightarrow> x = p) \<and>
         (binary64 (1 - binary64 (x / p)) < 0 \<longleftrightarrow> p < x)"
proof -
  note s = binary64_one_minus[OF refl, of "x / p"]
  consider "x < p" | "x = p" | "p < x" by linarith
  then show ?thesis
  proof cases
    case 1
    from quotient_below[OF assms(1,2,3) 1] s 1 show ?thesis by simp
  next
    case 2
    with assms(3) have "binary64 (x / p) = 1" by (simp add: binary64_one)
    with s 2 show ?thesis by simp
  next
    case 3
    from quotient_above[OF assms(1,2,3) 3] s 3 show ?thesis by simp
  qed
qed

lemma firstMonthInterest_double: "binary64 (firstMonthInterest B a) = firstMonthInterest B a"
  by (simp add: firstMonthInterest_def binary64_idem)

lemma monthlyRateOf_15: "monthlyRateOf 15 = 7205759403792793 / 576460752303423488"
  by (simp add: monthlyRateOf_def rate_15_percent rate_15_monthly)

lemma firstMonthInterest_1200_15: "firstMonthInterest 1200 15 = 8444249301319679 / 562949953421312"
  by (simp add: firstMonthInterest_def monthlyRateOf_15 interest_1200_at_15)

lemma monthlyRateOf_36: "monthlyRateOf 36 = 1080863910568919 / 36028797018963968"
  by (simp add: monthlyRateOf_def rate_36_percent rate_36_monthly)

lemma firstMonthInterest_10000_36: "firstMonthInterest 10000 36 = 300"
  by (simp add: firstMonthInterest_def monthlyRateOf_36 interest_10000_at_36)

lemma roundedLog_rate:
  assumes "2 powi (- 52) \<le> r"
  shows "0 < roundedLog (binary64 (1 + r))"
proof -
  have "1 + 2 powi (- 53) < 1 + r"
    using assms by (simp add: power_int_minus_divide)
  from binary64_above_one[OF binary64_gt_one[OF this]] show ?thesis
    by (rule roundedLog_positive)
qed

lemma card_payoff:
  "calculatePayoffTime lg 10000 36 (Fin 200) = \<lparr>months = NaN, totalInterest = NaN\<rparr>"
proof -
  have d: "binary64 200 = 200" by (simp add: binary64_numeral)
  have x: "binary64 (300::real) = 300" by (simp add: binary64_numeral)
  have "binary64 (1 - binary64 (300 / 200)) < 0"
    using coverage_sign[OF d x] by simp
  then show ?thesis
    by (intro payoff_nan[where lg = lg and a = 36 and B = 10000, OF refl refl])
       (simp_all add: monthlyRateOf_36 firstMonthInterest_10000_36)
qed

lemma card_plan:
  "map plan_minimumPayment (calculateDebtPayoffPlan lg cardLedger 0 avalanche) = [Fin 200] \<and>
   map plan_monthsToPayoff (calculateDebtPayoffPlan lg cardLedger 0 avalanche) = [NaN] \<and>
   map plan_totalInterest (calculateDebtPayoffPlan lg cardLedger 0 avalanche) = [NaN]"
  by (simp add: calculateDebtPayoffPlan_def getDebtAccounts_def planEntry_def planStep_def
      cardLedger_def emptyLedger_def Let_def card_payoff)

text \<open>
  C10, as the claim states it, fails at the boundary: for a balance of 1200 at 15
  percent a year the monthly rate is 0.0125 and the interest of the first month is 15,
  so a payment of 15 does not strictly exceed it; but the monthly rate that
  \<open>calculatePayoffTime\<close> computes is the double \<open>0.012499999999999999\<close> and its interest the
  double \<open>14.999999999999998\<close>, below the payment, and the months it returns are a finite
  number.
\<close>

theorem payoff_boundary_counterexample:
  "(15::real) = 1200 * (15 / 100 / 12) \<and>
   monthlyRateOf 15 = 7205759403792793 / 576460752303423488 \<and>
   firstMonthInterest 1200 15 = 8444249301319679 / 562949953421312 \<and>
   firstMonthInterest 1200 15 < 15 \<and>
   isFinite (months (calculatePayoffTime roundedLog 1200 15 (Fin 15)))"
proof -
  have d: "binary64 15 = 15" by (simp add: binary64_numeral)
  have l: "firstMonthInterest 1200 15 < 15" by (simp add: firstMonthInterest_1200_15)
  have s: "0 < binary64 (1 - binary64 (firstMonthInterest 1200 15 / 15))"
    using coverage_sign[OF d firstMonthInterest_double, of 1200 15] l by simp
  have g: "0 < roundedLog (binary64 (1 + monthlyRateOf 15))"
    by (rule roundedLog_rate) (simp add: monthlyRateOf_15 power_int_minus_divide)
  have r: "0 < monthlyRateOf 15" by (simp add: monthlyRateOf_15)
  from payoff_finite[where lg = roundedLog, OF refl refl r _ g s]
  have "isFinite (months (calculatePayoffTime roundedLog 1200 15 (Fin 15)))" by auto
  with l show ?thesis by (simp add: monthlyRateOf_15 firstMonthInterest_1200_15)
qed

text \<open>
  C10, amended: let \<open>r\<close> be the monthly rate and \<open>balance * r\<close> the interest of the first
  month as \<open>calculatePayoffTime\<close> computes them in doubles (\<open>monthlyRateOf\<close> and
  \<open>firstMonthInterest\<close>). For \<open>r\<close> above zero, a payment \<open>p\<close> above zero and a \<open>Math.log\<close>
  that is above zero at the double \<open>1 + r\<close>, the months returned are a finite number if
  and only if \<open>p\<close> is above that interest; at \<open>p\<close> equal to it months and total interest
  are \<open>Infinity\<close>, and below it both are \<open>NaN\<close>; a result is returned in every case. The
  plan of a credit card with a balance of 10000 at 36 percent, whose minimum payment of
  200 is below the monthly interest of 300, has \<open>NaN\<close> months and \<open>NaN\<close> total interest.
\<close>

theorem payoff_time_finite_iff:
  assumes "0 < monthlyRateOf annualRate" "0 < p" "binary64 p = p"
    "0 < lg (binary64 (1 + monthlyRateOf annualRate))"
  shows "(isFinite (months (calculatePayoffTime lg B annualRate (Fin p)))
            \<longleftrightarrow> firstMonthInterest B annualRate < p) \<and>
         (p = firstMonthInterest B annualRate \<longrightarrow>
            calculatePayoffTime lg B annualRate (Fin p) = \<lparr>months = PosInf, totalInterest = PosInf\<rparr>) \<and>
         (p < firstMonthInterest B annualRate \<longrightarrow>
            calculatePayoffTime lg B annualRate (Fin p) = \<lparr>months = NaN, totalInterest = NaN\<rparr>) \<and>
         map plan_minimumPayment (calculateDebtPayoffPlan lg cardLedger 0 avalanche) = [Fin 200] \<and>
         map plan_monthsToPayoff (calculateDebtPayoffPlan lg cardLedger 0 avalanche) = [NaN] \<and>
         map plan_totalInterest (calculateDebtPayoffPlan lg cardLedger 0 avalanche) = [NaN]"
proof -
  define x where "x = firstMonthInterest B annualRate"
  define r where "r = monthlyRateOf annualRate"
  have r: "0 < r" using assms(1) by (simp add: r_def)
  have g: "0 < lg (binary64 (1 + r))" using assms(4) by (simp add: r_def)
  have dx: "binary64 x = x" unfolding x_def by (rule firstMonthInterest_double)
  note c = coverage_sign[OF assms(3) dx assms(2)]
  note fin = payoff_finite[where lg = lg, OF r_def x_def r assms(2) g]
  note inf = payoff_infinite[where lg = lg, OF r_def x_def r assms(2) g]
  note nan = payoff_nan[where lg = lg, OF r_def x_def r assms(2)]
  consider "x < p" | "p = x" | "p < x" by linarith
  then have a: "isFinite (months (calculatePayoffTime lg B annualRate (Fin p))) \<longleftrightarrow> x < p"
  proof cases
    case 1
    with c have "0 < binary64 (1 - binary64 (x / p))" by simp
    from fin[OF this] obtain m where "months (calculatePayoffTime lg B annualRate (Fin p)) = Fin m"
      by blast
    with 1 show ?thesis by simp
  next
    case 2
    with c have "binary64 (1 - binary64 (x / p)) = 0" by simp
    from inf[OF this] 2 show ?thesis by simp
  next
    case 3
    with c have "binary64 (1 - binary64 (x / p)) < 0" by simp
    from nan[OF this] 3 show ?thesis by simp
  qed
  have b: "p = x \<longrightarrow>
      calculatePayoffTime lg B annualRate (Fin p) = \<lparr>months = PosInf, totalInterest = PosInf\<rparr>"
  proof
    assume "p = x"
    then have "x = p" by simp
    with c have "binary64 (1 - binary64 (x / p)) = 0" by blast
    then show "calculatePayoffTime lg B annualRate (Fin p) = \<lparr>months = PosInf, totalInterest = PosInf\<rparr>"
      by (rule inf)
  qed
  have n: "p < x \<longrightarrow>
      calculatePayoffTime lg B annualRate (Fin p) = \<lparr>months = NaN, totalInterest = NaN\<rparr>"
  proof
    assume "p < x"
    with c have "binary64 (1 - binary64 (x / p)) < 0" by blast
    then show "calculatePayoffTime lg B annualRate (Fin p) = \<lparr>months = NaN, totalInterest = NaN\<rparr>"
      by (rule nan)
  qed
  from a b n card_plan[of lg] show ?thesis unfolding x_def by (intro conjI) simp_all
qed

theorem payoff_time_finite_iff_witness:
  "0 < monthlyRateOf 36 \<and> binary64 200 = 200 \<and> binary64 300 = 300 \<and> binary64 400 = 400 \<and>
   0 < roundedLog (binary64 (1 + monthlyRateOf 36)) \<and>
   firstMonthInterest 10000 36 = 300 \<and>
   calculatePayoffTime roundedLog 10000 36 (Fin 200) = \<lparr>months = NaN, totalInterest = NaN\<rparr> \<and>
   calculatePayoffTime roundedLog 10000 36 (Fin 300) = \<lparr>months = PosInf, totalInterest = PosInf\<rparr> \<and>
   isFinite (months (calculatePayoffTime roundedLog 10000 36 (Fin 400)))"
proof -
  have r: "0 < monthlyRateOf 36" by (simp add: monthlyRateOf_36)
  have d: "binary64 200 = 200" "binary64 300 = 300" "binary64 400 = 400"
    by (simp_all add: binary64_numeral)
  have g: "0 < roundedLog (binary64 (1 + monthlyRateOf 36))"
    by (rule roundedLog_rate) (simp add: monthlyRateOf_36 power_int_minus_divide)
  note i = firstMonthInterest_10000_36
  from payoff_time_finite_iff[where lg = roundedLog and B = 10000, OF r _ d(1) g]
  have 1: "calculatePayoffTime roundedLog 10000 36 (Fin 200) = \<lparr>months = NaN, totalInterest = NaN\<rparr>"
    unfolding i by simp
  from payoff_time_finite_iff[where lg = roundedLog and B = 10000, OF r _ d(2) g]
  have 2: "calculatePayoffTime roundedLog 10000 36 (Fin 300) = \<lparr>months = PosInf, totalInterest = PosInf\<rparr>"
    unfolding i by simp
  from payoff_time_finite_iff[where lg = roundedLog and B = 10000, OF r _ d(3) g]
  have 3: "isFinite (months (calculatePayoffTime roundedLog 10000 36 (Fin 400)))"
    unfolding i by simp
  from r d g i 1 2 3 show ?thesis by blast
qed

end
